theory Spec2Isabelle
  imports Main "HOL-Library.Word"
begin

unbundle bit_operations_syntax

section \<open>The device manager of init (init/devices.cpp): the program\<close>

text \<open>
  A shallow embedding of \<^verbatim>\<open>init/devices.cpp\<close>. C strings are \<open>string\<close>s that hold
  the bytes before the terminating NUL; a pointer that may be \<^verbatim>\<open>NULL\<close> is an
  \<open>option\<close>. The intrusive lists of the source are HOL lists in insertion order
  (\<^verbatim>\<open>list_add_tail\<close> appends), so \<^verbatim>\<open>list_for_each\<close> walks the list and
  \<^verbatim>\<open>list_for_each_reverse\<close> walks its reverse. \<^verbatim>\<open>unsigned int\<close> and
  \<^verbatim>\<open>mode_t\<close> are 32-bit words, \<^verbatim>\<open>unsigned short\<close> is a 16-bit word. The
  \<^verbatim>\<open>int\<close> fields of an event are \<open>int\<close>: the source only compares them with 0,
  prints them, and divides a non-negative one by 128, so nothing can overflow.
  Memory allocation (\<^verbatim>\<open>calloc\<close>, \<^verbatim>\<open>strdup\<close>, \<^verbatim>\<open>asprintf\<close>) is taken
  to succeed. Functions of libc and of other files of init that the source calls
  (\<^verbatim>\<open>fnmatch\<close>, \<^verbatim>\<open>atoi\<close>, \<^verbatim>\<open>sanitize\<close>, \<^verbatim>\<open>insmod_by_dep\<close>, the
  SELinux library, the tokenizer) are parameters of the functions that use them.
\<close>

subsection \<open>C strings\<close>

text \<open>\<^verbatim>\<open>strncmp(a, b, n) == 0\<close> on NUL-free bodies: the first \<open>n\<close> bytes agree, where
  the end of a string counts as a byte of its own.\<close>

definition strncmp_eq :: "string \<Rightarrow> string \<Rightarrow> nat \<Rightarrow> bool" where
  "strncmp_eq a b n = (take n a = take n b)"

text \<open>\<^verbatim>\<open>strchr(s, c)\<close>: the suffix of \<open>s\<close> that starts at the first \<open>c\<close>, or
  \<^verbatim>\<open>NULL\<close>.\<close>

definition strchr :: "string \<Rightarrow> char \<Rightarrow> string option" where
  "strchr s c = (if c \<in> set s then Some (dropWhile (\<lambda>x. x \<noteq> c) s) else None)"

text \<open>\<^verbatim>\<open>strrchr(s, c)\<close>: the suffix of \<open>s\<close> that starts at the last \<open>c\<close>, or
  \<^verbatim>\<open>NULL\<close>.\<close>

definition strrchr :: "string \<Rightarrow> char \<Rightarrow> string option" where
  "strrchr s c =
     (if c \<in> set s then Some (c # rev (takeWhile (\<lambda>x. x \<noteq> c) (rev s))) else None)"

text \<open>\<^verbatim>\<open>snprintf(buf, size, ...)\<close> keeps the first \<open>size - 1\<close> bytes of the formatted
  text and returns the length of the whole text.\<close>

definition snprintf :: "nat \<Rightarrow> string \<Rightarrow> string" where
  "snprintf n s = take (n - 1) s"

subsection \<open>Permission rules\<close>

record perms =
  dp_name :: string
  dp_attr :: "string option"
  dp_perm :: "32 word"
  dp_uid :: "32 word"
  dp_gid :: "32 word"
  dp_prefix :: "16 word"
  dp_wildcard :: "16 word"

record perm_lists =
  sys_perms :: "perms list"
  dev_perms :: "perms list"

text \<open>\<^verbatim>\<open>add_dev_perms\<close>: a rule with an attribute goes to the end of
  \<^verbatim>\<open>sys_perms\<close>, one without to the end of \<^verbatim>\<open>dev_perms\<close>.\<close>

definition add_dev_perms ::
  "string \<Rightarrow> string option \<Rightarrow> 32 word \<Rightarrow> 32 word \<Rightarrow> 32 word \<Rightarrow> 16 word \<Rightarrow> 16 word
     \<Rightarrow> perm_lists \<Rightarrow> perm_lists" where
  "add_dev_perms name attr perm uid gid prefix wildcard st =
     (let node = \<lparr>dp_name = name, dp_attr = attr, dp_perm = perm, dp_uid = uid,
                  dp_gid = gid, dp_prefix = prefix, dp_wildcard = wildcard\<rparr>
      in if attr \<noteq> None then st\<lparr>sys_perms := sys_perms st @ [node]\<rparr>
         else st\<lparr>dev_perms := dev_perms st @ [node]\<rparr>)"

text \<open>The flags the source passes to \<^verbatim>\<open>fnmatch\<close>, and the type of the matcher:
  pattern, string, flags; 0 means a match.\<close>

datatype fnm_flags = FNM_NOFLAGS | FNM_PATHNAME

type_synonym fnmatch_fn = "string \<Rightarrow> string \<Rightarrow> fnm_flags \<Rightarrow> int"

definition perm_path_matches :: "fnmatch_fn \<Rightarrow> string \<Rightarrow> perms \<Rightarrow> bool" where
  "perm_path_matches fnmatch path dp =
     (if dp_prefix dp \<noteq> 0 then strncmp_eq path (dp_name dp) (length (dp_name dp))
      else if dp_wildcard dp \<noteq> 0 then fnmatch (dp_name dp) path FNM_PATHNAME = 0
      else path = dp_name dp)"

text \<open>The inner loop of \<^verbatim>\<open>get_device_perm\<close> over the NULL-terminated array
  \<^verbatim>\<open>links\<close>: it stops at the first link that matches.\<close>

fun links_match :: "fnmatch_fn \<Rightarrow> string list \<Rightarrow> perms \<Rightarrow> bool" where
  "links_match fnmatch [] dp = False"
| "links_match fnmatch (l # ls) dp =
     (if perm_path_matches fnmatch l dp then True else links_match fnmatch ls dp)"

text \<open>The outer loop, over the nodes in the order they are visited. The result is
  \<open>(mode, uid, gid)\<close>: the returned \<^verbatim>\<open>mode_t\<close> and the two out-parameters.\<close>

fun get_device_perm_loop ::
  "fnmatch_fn \<Rightarrow> string \<Rightarrow> string list option \<Rightarrow> perms list \<Rightarrow> 32 word \<times> 32 word \<times> 32 word"
  where
  "get_device_perm_loop fnmatch path links [] = (384, 0, 0)"
| "get_device_perm_loop fnmatch path links (dp # nodes) =
     (let match =
        (if perm_path_matches fnmatch path dp then True
         else (case links of None \<Rightarrow> False | Some ls \<Rightarrow> links_match fnmatch ls dp))
      in if match then (dp_perm dp, dp_uid dp, dp_gid dp)
         else get_device_perm_loop fnmatch path links nodes)"

text \<open>\<^verbatim>\<open>get_device_perm\<close>: \<^verbatim>\<open>list_for_each_reverse\<close> over \<^verbatim>\<open>dev_perms\<close>;
  the default mode is octal 0600, that is 384.\<close>

definition get_device_perm ::
  "fnmatch_fn \<Rightarrow> perms list \<Rightarrow> string \<Rightarrow> string list option \<Rightarrow> 32 word \<times> 32 word \<times> 32 word"
  where
  "get_device_perm fnmatch dev_perms_list path links =
     get_device_perm_loop fnmatch path links (rev dev_perms_list)"

text \<open>A matcher for the concrete examples below: literal bytes, \<open>?\<close> and \<open>*\<close>, where
  with \<open>FNM_PATHNAME\<close> neither \<open>?\<close> nor \<open>*\<close> matches a slash. On patterns
  without brackets and backslashes it agrees with libc's \<^verbatim>\<open>fnmatch\<close>.\<close>

fun glob :: "fnm_flags \<Rightarrow> string \<Rightarrow> string \<Rightarrow> bool" where
  "glob fl [] s = (s = [])"
| "glob fl (p # ps) [] = (p = CHR ''*'' \<and> glob fl ps [])"
| "glob fl (p # ps) (c # cs) =
     (if p = CHR ''*''
      then glob fl ps (c # cs) \<or> (\<not> (fl = FNM_PATHNAME \<and> c = CHR ''/'') \<and> glob fl (p # ps) cs)
      else (p = c \<or> (p = CHR ''?'' \<and> \<not> (fl = FNM_PATHNAME \<and> c = CHR ''/''))) \<and> glob fl ps cs)"

definition fnmatch_glob :: fnmatch_fn where
  "fnmatch_glob pat s fl = (if glob fl pat s then 0 else 1)"

subsection \<open>Events\<close>

text \<open>\<^verbatim>\<open>struct uevent\<close>. The seven \<^verbatim>\<open>const char *\<close> fields are options; the
  handlers read \<^verbatim>\<open>action\<close>, \<^verbatim>\<open>path\<close>, \<^verbatim>\<open>subsystem\<close> and \<^verbatim>\<open>firmware\<close>
  without a NULL check, which is \<open>the\<close> here (\<^verbatim>\<open>parse_event\<close> never leaves them
  NULL).\<close>

record uevent =
  action :: "string option"
  path :: "string option"
  subsystem :: "string option"
  firmware :: "string option"
  partition_name :: "string option"
  device_name :: "string option"
  modalias :: "string option"
  partition_num :: int
  major :: int
  minor :: int

subsection \<open>Parsing an event\<close>

text \<open>The message is the list of the bytes received. \<^verbatim>\<open>handle_device_fd\<close> stores two
  NUL bytes after them, so reading at the end of the list, or one byte further, reads
  NUL. \<open>c_str m\<close> is the C string that starts where \<open>m\<close> starts.\<close>

definition NUL :: char where
  "NUL = CHR 0x00"

definition c_str :: "string \<Rightarrow> string" where
  "c_str m = takeWhile (\<lambda>c. c \<noteq> NUL) m"

text \<open>\<^verbatim>\<open>while(*msg++);\<close> moves past the next NUL.\<close>

definition skip_record :: "string \<Rightarrow> string" where
  "skip_record m = drop 1 (dropWhile (\<lambda>c. c \<noteq> NUL) m)"

text \<open>The ten assignments at the head of \<^verbatim>\<open>parse_event\<close>.\<close>

definition uevent_init :: uevent where
  "uevent_init =
     \<lparr>action = Some [], path = Some [], subsystem = Some [], firmware = Some [],
      partition_name = None, device_name = None, modalias = None,
      partition_num = - 1, major = - 1, minor = - 1\<rparr>"

text \<open>The chain of \<^verbatim>\<open>strncmp\<close> tests of one round of the loop: the new \<^verbatim>\<open>msg\<close>
  and the event after the assignment.\<close>

definition parse_tag :: "(string \<Rightarrow> int) \<Rightarrow> string \<Rightarrow> uevent \<Rightarrow> string \<times> uevent" where
  "parse_tag atoi m ue =
     (if strncmp_eq (c_str m) ''ACTION='' 7
      then (drop 7 m, ue\<lparr>action := Some (c_str (drop 7 m))\<rparr>)
      else if strncmp_eq (c_str m) ''DEVPATH='' 8
      then (drop 8 m, ue\<lparr>path := Some (c_str (drop 8 m))\<rparr>)
      else if strncmp_eq (c_str m) ''SUBSYSTEM='' 10
      then (drop 10 m, ue\<lparr>subsystem := Some (c_str (drop 10 m))\<rparr>)
      else if strncmp_eq (c_str m) ''FIRMWARE='' 9
      then (drop 9 m, ue\<lparr>firmware := Some (c_str (drop 9 m))\<rparr>)
      else if strncmp_eq (c_str m) ''MAJOR='' 6
      then (drop 6 m, ue\<lparr>major := atoi (c_str (drop 6 m))\<rparr>)
      else if strncmp_eq (c_str m) ''MINOR='' 6
      then (drop 6 m, ue\<lparr>minor := atoi (c_str (drop 6 m))\<rparr>)
      else if strncmp_eq (c_str m) ''PARTN='' 6
      then (drop 6 m, ue\<lparr>partition_num := atoi (c_str (drop 6 m))\<rparr>)
      else if strncmp_eq (c_str m) ''PARTNAME='' 9
      then (drop 9 m, ue\<lparr>partition_name := Some (c_str (drop 9 m))\<rparr>)
      else if strncmp_eq (c_str m) ''DEVNAME='' 8
      then (drop 8 m, ue\<lparr>device_name := Some (c_str (drop 8 m))\<rparr>)
      else if strncmp_eq (c_str m) ''MODALIAS='' 9
      then (drop 9 m, ue\<lparr>modalias := Some (c_str (drop 9 m))\<rparr>)
      else (m, ue))"

lemma length_skip_record: "m \<noteq> [] \<Longrightarrow> length (skip_record (drop k m)) < length m"
proof -
  assume "m \<noteq> []"
  have "length (dropWhile (\<lambda>c. c \<noteq> NUL) (drop k m)) \<le> length (drop k m)"
    by (rule length_dropWhile_le)
  then show ?thesis using \<open>m \<noteq> []\<close> by (cases m) (auto simp: skip_record_def)
qed

lemma length_skip_parse_tag:
  "m \<noteq> [] \<Longrightarrow> length (skip_record (fst (parse_tag atoi m ue))) < length m"
  using length_skip_record[of m 0] by (simp add: parse_tag_def length_skip_record)

text \<open>\<^verbatim>\<open>while(*msg) { ... }\<close>.\<close>

function parse_event_loop :: "(string \<Rightarrow> int) \<Rightarrow> string \<Rightarrow> uevent \<Rightarrow> uevent" where
  "parse_event_loop atoi m ue =
     (if m = [] \<or> hd m = NUL then ue
      else parse_event_loop atoi (skip_record (fst (parse_tag atoi m ue)))
             (snd (parse_tag atoi m ue)))"
  by pat_completeness auto
termination
  by (relation "measure (\<lambda>(atoi, m, ue). length m)") (simp_all add: length_skip_parse_tag)

definition parse_event :: "(string \<Rightarrow> int) \<Rightarrow> string \<Rightarrow> uevent" where
  "parse_event atoi msg = parse_event_loop atoi msg uevent_init"

text \<open>The records of a message: the C strings that follow one another, up to the first
  empty one. \<open>has_tag t r\<close>: record \<open>r\<close> begins with the tag \<open>t\<close>.
  \<open>tag_value t rs\<close>: what follows the tag in the last record of \<open>rs\<close> that begins
  with \<open>t\<close>, or \<open>None\<close> when no record does.\<close>

function records :: "string \<Rightarrow> string list" where
  "records m = (if m = [] \<or> hd m = NUL then [] else c_str m # records (skip_record m))"
  by pat_completeness auto
termination
  by (relation "measure length") (use length_skip_record[where k = 0] in auto)

declare parse_event_loop.simps [simp del] records.simps [simp del]

definition has_tag :: "string \<Rightarrow> string \<Rightarrow> bool" where
  "has_tag t r = (take (length t) r = t)"

fun tag_value :: "string \<Rightarrow> string list \<Rightarrow> string option" where
  "tag_value t [] = None"
| "tag_value t (r # rs) =
     (case tag_value t rs of
        Some v \<Rightarrow> Some v
      | None \<Rightarrow> if has_tag t r then Some (drop (length t) r) else None)"

text \<open>One round of the loop, on the record alone.\<close>

definition apply_record :: "(string \<Rightarrow> int) \<Rightarrow> string \<Rightarrow> uevent \<Rightarrow> uevent" where
  "apply_record atoi r ue =
     (if strncmp_eq r ''ACTION='' 7 then ue\<lparr>action := Some (drop 7 r)\<rparr>
      else if strncmp_eq r ''DEVPATH='' 8 then ue\<lparr>path := Some (drop 8 r)\<rparr>
      else if strncmp_eq r ''SUBSYSTEM='' 10 then ue\<lparr>subsystem := Some (drop 10 r)\<rparr>
      else if strncmp_eq r ''FIRMWARE='' 9 then ue\<lparr>firmware := Some (drop 9 r)\<rparr>
      else if strncmp_eq r ''MAJOR='' 6 then ue\<lparr>major := atoi (drop 6 r)\<rparr>
      else if strncmp_eq r ''MINOR='' 6 then ue\<lparr>minor := atoi (drop 6 r)\<rparr>
      else if strncmp_eq r ''PARTN='' 6 then ue\<lparr>partition_num := atoi (drop 6 r)\<rparr>
      else if strncmp_eq r ''PARTNAME='' 9 then ue\<lparr>partition_name := Some (drop 9 r)\<rparr>
      else if strncmp_eq r ''DEVNAME='' 8 then ue\<lparr>device_name := Some (drop 8 r)\<rparr>
      else if strncmp_eq r ''MODALIAS='' 9 then ue\<lparr>modalias := Some (drop 9 r)\<rparr>
      else ue)"

subsection \<open>The platform device registry\<close>

text \<open>\<^verbatim>\<open>struct platform_node\<close>. \<^verbatim>\<open>path_len\<close> holds \<^verbatim>\<open>strlen(path)\<close> and is
  used as an index: it is a \<open>nat\<close>.\<close>

record platform_node =
  bus_name :: string
  bus_path :: string
  bus_path_len :: nat

text \<open>\<^verbatim>\<open>add_platform_device\<close>: the name is the path without a leading
  \<^verbatim>\<open>/devices/\<close> and without a \<^verbatim>\<open>platform/\<close> after that; the node goes to the
  end of \<^verbatim>\<open>platform_names\<close>. Nothing looks for an entry with the same path.\<close>

definition add_platform_device :: "string \<Rightarrow> platform_node list \<Rightarrow> platform_node list" where
  "add_platform_device p platform_names =
     (let name =
        (if strncmp_eq p ''/devices/'' 9
         then (let name1 = drop 9 p
               in if strncmp_eq name1 ''platform/'' 9 then drop 9 name1 else name1)
         else p)
      in platform_names @ [\<lparr>bus_name = name, bus_path = p, bus_path_len = length p\<rparr>])"

text \<open>\<^verbatim>\<open>find_platform_device\<close>, over the nodes in the order they are visited.\<close>

fun find_platform_device_loop :: "string \<Rightarrow> platform_node list \<Rightarrow> platform_node option" where
  "find_platform_device_loop p [] = None"
| "find_platform_device_loop p (bus # nodes) =
     (if bus_path_len bus < length p \<and>
         p ! bus_path_len bus = CHR ''/'' \<and>
         strncmp_eq p (bus_path bus) (bus_path_len bus)
      then Some bus
      else find_platform_device_loop p nodes)"

definition find_platform_device :: "string \<Rightarrow> platform_node list \<Rightarrow> platform_node option" where
  "find_platform_device p platform_names = find_platform_device_loop p (rev platform_names)"

text \<open>\<^verbatim>\<open>remove_platform_device\<close>: the loop visits the nodes newest first, unlinks the
  first whose path is the given one and returns.\<close>

fun remove_platform_device_loop :: "string \<Rightarrow> platform_node list \<Rightarrow> platform_node list" where
  "remove_platform_device_loop p [] = []"
| "remove_platform_device_loop p (bus # nodes) =
     (if p = bus_path bus then nodes else bus # remove_platform_device_loop p nodes)"

definition remove_platform_device :: "string \<Rightarrow> platform_node list \<Rightarrow> platform_node list" where
  "remove_platform_device p platform_names =
     rev (remove_platform_device_loop p (rev platform_names))"

definition handle_platform_device_event :: "uevent \<Rightarrow> platform_node list \<Rightarrow> platform_node list"
  where
  "handle_platform_device_event ue platform_names =
     (if action ue = Some ''add'' then add_platform_device (the (path ue)) platform_names
      else if action ue = Some ''remove'' then remove_platform_device (the (path ue)) platform_names
      else platform_names)"

text \<open>The registry after a sequence of platform events, oldest first.\<close>

fun platform_events :: "uevent list \<Rightarrow> platform_node list \<Rightarrow> platform_node list" where
  "platform_events [] platform_names = platform_names"
| "platform_events (ue # ues) platform_names =
     platform_events ues (handle_platform_device_event ue platform_names)"

text \<open>A sequence of events in which no \<^verbatim>\<open>add\<close> names a path that the registry holds
  when the event arrives.\<close>

fun adds_fresh :: "uevent list \<Rightarrow> platform_node list \<Rightarrow> bool" where
  "adds_fresh [] platform_names = True"
| "adds_fresh (ue # ues) platform_names =
     ((if action ue = Some ''add'' then the (path ue) \<notin> set (map bus_path platform_names)
       else True) \<and>
      adds_fresh ues (handle_platform_device_event ue platform_names))"

subsection \<open>The PCI prefix\<close>

text \<open>\<^verbatim>\<open>find_pci_device_prefix\<close>: \<open>None\<close> is the return value -1, \<open>Some b\<close> is the
  return value 0 with \<open>b\<close> in the buffer. \<open>n\<close> is \<^verbatim>\<open>end - start\<close>.\<close>

definition find_pci_device_prefix :: "string \<Rightarrow> int \<Rightarrow> string option" where
  "find_pci_device_prefix p buf_sz =
     (if \<not> strncmp_eq p ''/devices/pci'' 12 then None
      else (let start = drop 9 p
            in case strchr start CHR ''/'' of
                 None \<Rightarrow> None
               | Some end1 \<Rightarrow>
                   (case strchr (tl end1) CHR ''/'' of
                      None \<Rightarrow> None
                    | Some end2 \<Rightarrow>
                        (let n = int (length start) - int (length end2)
                         in if n + 1 > buf_sz then None else Some (take (nat n) start)))))"

text \<open>The words of the specification, with the ordinal of the slash as a parameter:
  \<open>before_nth k c s\<close> is the part of \<open>s\<close> before the \<open>k\<close>-th \<open>c\<close> (counted from
  1), if \<open>s\<close> has that many.\<close>

fun before_nth :: "nat \<Rightarrow> char \<Rightarrow> string \<Rightarrow> string option" where
  "before_nth 0 c s = None"
| "before_nth (Suc k) c [] = None"
| "before_nth (Suc k) c (x # xs) =
     (if x = c then (if k = 0 then Some [] else map_option ((#) x) (before_nth k c xs))
      else map_option ((#) x) (before_nth (Suc k) c xs))"

definition pci_prefix_spec :: "nat \<Rightarrow> string \<Rightarrow> int \<Rightarrow> string option" where
  "pci_prefix_spec k p buf_sz =
     (if take 12 p = ''/devices/pci''
      then (case before_nth k CHR ''/'' (drop 9 p) of
              None \<Rightarrow> None
            | Some b \<Rightarrow> if int (length b) + 1 \<le> buf_sz then Some b else None)
      else None)"

subsection \<open>Formatting\<close>

text \<open>\<^verbatim>\<open>%d\<close> and \<^verbatim>\<open>%03d\<close> of \<^verbatim>\<open>printf\<close>, and \<^verbatim>\<open>%s\<close> of a pointer that may
  be NULL (bionic and glibc print \<^verbatim>\<open>(null)\<close>).\<close>

definition digit_char :: "nat \<Rightarrow> char" where
  "digit_char d = ''0123456789'' ! d"

function print_nat :: "nat \<Rightarrow> string" where
  "print_nat n = (if n < 10 then [digit_char n] else print_nat (n div 10) @ [digit_char (n mod 10)])"
  by pat_completeness auto
termination
  by (relation "measure id") auto

declare print_nat.simps [simp del]

definition printf_d :: "int \<Rightarrow> string" where
  "printf_d i = (if i < 0 then CHR ''-'' # print_nat (nat (- i)) else print_nat (nat i))"

definition printf_03d :: "int \<Rightarrow> string" where
  "printf_03d i =
     (if i < 0
      then (let ds = print_nat (nat (- i)) in CHR ''-'' # replicate (2 - length ds) CHR ''0'' @ ds)
      else (let ds = print_nat (nat i) in replicate (3 - length ds) CHR ''0'' @ ds))"

definition printf_s :: "string option \<Rightarrow> string" where
  "printf_s p = (case p of None \<Rightarrow> ''(null)'' | Some str \<Rightarrow> str)"

subsection \<open>Symbolic links of a device\<close>

text \<open>\<^verbatim>\<open>get_character_device_symlinks\<close>: the links, or NULL, and whether
  \<^verbatim>\<open>mkdir("/dev/usb", 0755)\<close> was called. \<open>parent\<close> starts at the slash that
  \<^verbatim>\<open>find_platform_device\<close> has seen behind the platform path.\<close>

definition get_character_device_symlinks ::
  "platform_node list \<Rightarrow> uevent \<Rightarrow> string list option \<times> bool" where
  "get_character_device_symlinks platform_names ue =
     (case find_platform_device (the (path ue)) platform_names of
        None \<Rightarrow> (None, False)
      | Some pdev \<Rightarrow>
          (case strchr (drop (bus_path_len pdev) (the (path ue))) CHR ''/'' of
             None \<Rightarrow> (None, False)
           | Some parent \<Rightarrow>
               (if strncmp_eq parent ''/usb'' 4
                then (let parent1 = dropWhile (\<lambda>c. c \<noteq> CHR ''/'') (tl parent);
                          parent2 = (if parent1 \<noteq> []
                                     then dropWhile (\<lambda>c. c \<noteq> CHR ''/'') (tl parent1)
                                     else parent1)
                      in if parent2 = [] then (None, False)
                         else (case strchr (tl parent2) CHR ''/'' of
                                 None \<Rightarrow> (None, False)
                               | Some slash \<Rightarrow>
                                   (let width = int (length (tl parent2)) - int (length slash)
                                    in if width \<le> 0 then (None, False)
                                       else (Some [''/dev/usb/'' @ the (subsystem ue) @
                                                     take (nat width) (tl parent2)], True))))
                else (None, False))))"

text \<open>\<^verbatim>\<open>get_block_device_symlinks\<close>. \<^verbatim>\<open>sanitize\<close> belongs to util.cpp and is a
  parameter. \<^verbatim>\<open>buf\<close> and \<^verbatim>\<open>link_path\<close> are arrays of 256 bytes. The three
  \<^verbatim>\<open>asprintf\<close> results are never empty, so each link that is built is stored.
  \<^verbatim>\<open>strrchr\<close> finds a slash whenever one of the two parents was found.\<close>

definition get_block_device_symlinks ::
  "(string \<Rightarrow> string) \<Rightarrow> platform_node list \<Rightarrow> uevent \<Rightarrow> string list option" where
  "get_block_device_symlinks sanitize platform_names ue =
     (case (case find_platform_device (the (path ue)) platform_names of
              Some pdev \<Rightarrow> Some (bus_name pdev, ''platform'')
            | None \<Rightarrow>
                (case find_pci_device_prefix (the (path ue)) 256 of
                   Some buf \<Rightarrow> Some (buf, ''pci'')
                 | None \<Rightarrow> None)) of
        None \<Rightarrow> None
      | Some (device, type) \<Rightarrow>
          (let link_path = snprintf 256 (''/dev/block/'' @ type @ ''/'' @ device);
               links1 = (case partition_name ue of
                           Some pn \<Rightarrow> [link_path @ ''/by-name/'' @ sanitize pn]
                         | None \<Rightarrow> []);
               links2 = (if partition_num ue \<ge> 0
                         then [link_path @ ''/by-num/p'' @ printf_d (partition_num ue)]
                         else [])
           in case strrchr (the (path ue)) CHR ''/'' of
                None \<Rightarrow> None
              | Some slash \<Rightarrow> Some (links1 @ links2 @ [link_path @ ''/'' @ tl slash])))"

text \<open>The parent of a block device as the specification names it: the platform entry
  that \<^verbatim>\<open>find_platform_device\<close> returns, with its name, or else the PCI prefix that
  fits a buffer of 256 bytes. \<open>block_link_base\<close> is what \<^verbatim>\<open>link_path\<close>, an array of
  256 bytes, holds of \<^verbatim>\<open>/dev/block/<type>/<device>\<close>.\<close>

definition block_device_parent :: "platform_node list \<Rightarrow> string \<Rightarrow> (string \<times> string) option" where
  "block_device_parent platform_names p =
     (case find_platform_device p platform_names of
        Some pdev \<Rightarrow> Some (''platform'', bus_name pdev)
      | None \<Rightarrow>
          (case find_pci_device_prefix p 256 of
             Some prefix \<Rightarrow> Some (''pci'', prefix)
           | None \<Rightarrow> None))"

definition block_link_base :: "string \<Rightarrow> string \<Rightarrow> string" where
  "block_link_base type device = take 255 (''/dev/block/'' @ type @ ''/'' @ device)"

text \<open>Modelled from the spec: \<^verbatim>\<open>sanitize\<close> of util.cpp, which is not among the
  sources; every byte outside \<^verbatim>\<open>[A-Za-z0-9._-]\<close> becomes an underscore.\<close>

definition sanitize_spec :: "string \<Rightarrow> string" where
  "sanitize_spec s =
     map (\<lambda>c. if c \<in> set ''abcdefghijklmnopqrstuvwxyzABCDEFGHIJKLMNOPQRSTUVWXYZ0123456789_-.''
               then c else CHR ''_'') s"

subsection \<open>Device nodes\<close>

text \<open>What the handlers do to the file system, in the order of the calls.
  \<^verbatim>\<open>make_dir\<close>, \<^verbatim>\<open>mkdir_recursive\<close>, \<^verbatim>\<open>make_link_init\<close> and
  \<^verbatim>\<open>remove_link\<close> belong to util.cpp and are single operations here.\<close>

datatype sys_op =
    MakeDir string "32 word"
  | Mkdir string "32 word"
  | MkdirRecursive string "32 word"
  | Setfscreatecon "string option"
  | Setegid "32 word"
  | Mknod string "32 word" int int
  | Lsetfilecon string string
  | Chown string "32 word"
  | MakeLinkInit string string
  | RemoveLink string string
  | Unlink string

text \<open>The path of the device node that an operation creates, relabels, chowns or
  removes.\<close>

fun node_path :: "sys_op \<Rightarrow> string option" where
  "node_path (Mknod p mode ma mi) = Some p"
| "node_path (Lsetfilecon p con) = Some p"
| "node_path (Chown p u) = Some p"
| "node_path (Unlink p) = Some p"
| "node_path other = None"

text \<open>What the handlers take from outside this file: \<^verbatim>\<open>fnmatch\<close>, \<^verbatim>\<open>sanitize\<close>,
  \<^verbatim>\<open>selabel_lookup_best_match\<close> (\<open>None\<close> is its failure), whether \<^verbatim>\<open>mknod\<close>
  fails with \<^verbatim>\<open>EEXIST\<close>, and \<^verbatim>\<open>ueventd_subsystem_find_by_name\<close>.\<close>

datatype devname_src_t = DEVNAME_UNKNOWN | DEVNAME_UEVENT_DEVNAME | DEVNAME_UEVENT_DEVPATH

record ueventd_subsystem =
  ss_name :: string
  ss_dirname :: string
  ss_devname_src :: devname_src_t

record dev_env =
  env_fnmatch :: fnmatch_fn
  env_sanitize :: "string \<Rightarrow> string"
  env_selabel_lookup_best_match :: "string \<Rightarrow> string list option \<Rightarrow> 32 word \<Rightarrow> string option"
  env_mknod_eexist :: "string \<Rightarrow> bool"
  env_subsystem_find_by_name :: "string \<Rightarrow> ueventd_subsystem option"

text \<open>\<^verbatim>\<open>S_IFBLK\<close> is octal 060000, \<^verbatim>\<open>S_IFCHR\<close> is octal 020000, \<^verbatim>\<open>AID_ROOT\<close>
  is 0.\<close>

definition S_IFBLK :: "32 word" where "S_IFBLK = 24576"

definition S_IFCHR :: "32 word" where "S_IFCHR = 8192"

definition make_device ::
  "dev_env \<Rightarrow> perms list \<Rightarrow> string \<Rightarrow> bool \<Rightarrow> int \<Rightarrow> int \<Rightarrow> string list option \<Rightarrow> sys_op list"
  where
  "make_device env rules p block ma mi links =
     (case get_device_perm (env_fnmatch env) rules p links of
        (perm, uid, gid) \<Rightarrow>
          (let mode = perm OR (if block then S_IFBLK else S_IFCHR)
           in case env_selabel_lookup_best_match env p links mode of
                None \<Rightarrow> []
              | Some secontext \<Rightarrow>
                  [Setfscreatecon (Some secontext), Setegid gid, Mknod p mode ma mi] @
                  (if env_mknod_eexist env p then [Lsetfilecon p secontext] else []) @
                  [Chown p uid, Setegid 0, Setfscreatecon None]))"

definition handle_device ::
  "dev_env \<Rightarrow> perms list \<Rightarrow> string \<Rightarrow> string \<Rightarrow> bool \<Rightarrow> int \<Rightarrow> int \<Rightarrow> string list option
     \<Rightarrow> sys_op list" where
  "handle_device env rules act devpath block ma mi links =
     (if act = ''add''
      then make_device env rules devpath block ma mi links @
           (case links of None \<Rightarrow> [] | Some ls \<Rightarrow> map (MakeLinkInit devpath) ls)
      else []) @
     (if act = ''remove''
      then (case links of None \<Rightarrow> [] | Some ls \<Rightarrow> map (RemoveLink devpath) ls) @
           [Unlink devpath]
      else [])"

definition parse_device_name :: "uevent \<Rightarrow> nat \<Rightarrow> string option" where
  "parse_device_name ue len =
     (if major ue < 0 \<or> minor ue < 0 then None
      else (case strrchr (the (path ue)) CHR ''/'' of
              None \<Rightarrow> None
            | Some slash \<Rightarrow>
                (let name = tl slash in if length name > len then None else Some name)))"

text \<open>\<^verbatim>\<open>handle_block_device_event\<close>; octal 0755 is 493.\<close>

definition handle_block_device_event ::
  "dev_env \<Rightarrow> perms list \<Rightarrow> platform_node list \<Rightarrow> uevent \<Rightarrow> sys_op list" where
  "handle_block_device_event env rules platform_names ue =
     (case parse_device_name ue 64 of
        None \<Rightarrow> []
      | Some name \<Rightarrow>
          (let devpath = snprintf 96 (''/dev/block/'' @ name);
               links = (if strncmp_eq (the (path ue)) ''/devices/'' 9
                        then get_block_device_symlinks (env_sanitize env) platform_names ue
                        else None)
           in MakeDir ''/dev/block/'' 493 #
              handle_device env rules (the (action ue)) devpath True (major ue) (minor ue) links))"

text \<open>\<^verbatim>\<open>assemble_devpath\<close>: \<open>None\<close> is \<^verbatim>\<open>false\<close>. \<^verbatim>\<open>snprintf\<close> with
  \<^verbatim>\<open>%s/%s\<close> does not fail, so \<open>s\<close> is the length of the whole text.\<close>

definition assemble_devpath :: "string \<Rightarrow> string option \<Rightarrow> string option" where
  "assemble_devpath dir devname =
     (let text = dir @ ''/'' @ printf_s devname;
          s = int (length text)
      in if s < 0 then None else if s \<ge> 96 then None else Some (snprintf 96 text))"

text \<open>\<^verbatim>\<open>mkdir_recursive_for_devpath\<close>: the directory is the path up to its last
  slash.\<close>

definition mkdir_recursive_for_devpath :: "string \<Rightarrow> sys_op list" where
  "mkdir_recursive_for_devpath devpath =
     [MkdirRecursive (rev (tl (dropWhile (\<lambda>c. c \<noteq> CHR ''/'') (rev devpath)))) 493]"

text \<open>The tail of the chain of tests of \<^verbatim>\<open>handle_generic_device_event\<close>, from
  \<^verbatim>\<open>graphics\<close> on: the directory made, \<^verbatim>\<open>base\<close> and \<^verbatim>\<open>name\<close>.\<close>

definition choose_base :: "string \<Rightarrow> string \<Rightarrow> sys_op list \<times> string \<times> string" where
  "choose_base subsys name =
     (if strncmp_eq subsys ''graphics'' 8
      then ([MakeDir ''/dev/graphics/'' 493], ''/dev/graphics/'', name)
      else if strncmp_eq subsys ''drm'' 3
      then ([MakeDir ''/dev/dri/'' 493], ''/dev/dri/'', name)
      else if strncmp_eq subsys ''oncrpc'' 6
      then ([MakeDir ''/dev/oncrpc/'' 493], ''/dev/oncrpc/'', name)
      else if strncmp_eq subsys ''adsp'' 4
      then ([MakeDir ''/dev/adsp/'' 493], ''/dev/adsp/'', name)
      else if strncmp_eq subsys ''msm_camera'' 10
      then ([MakeDir ''/dev/msm_camera/'' 493], ''/dev/msm_camera/'', name)
      else if strncmp_eq subsys ''input'' 5
      then ([MakeDir ''/dev/input/'' 493], ''/dev/input/'', name)
      else if strncmp_eq subsys ''mtd'' 3
      then ([MakeDir ''/dev/mtd/'' 493], ''/dev/mtd/'', name)
      else if strncmp_eq subsys ''sound'' 5
      then ([MakeDir ''/dev/snd/'' 493], ''/dev/snd/'', name)
      else if strncmp_eq subsys ''misc'' 4 \<and> strncmp_eq name ''log_'' 4
      then ([MakeDir ''/dev/log/'' 493], ''/dev/log/'', drop 4 name)
      else ([], ''/dev/'', name))"

text \<open>The chain of tests of \<^verbatim>\<open>handle_generic_device_event\<close> up to the call of
  \<^verbatim>\<open>get_character_device_symlinks\<close>: the event is dropped, or \<^verbatim>\<open>devpath\<close> is
  filled, or \<^verbatim>\<open>base\<close> and \<^verbatim>\<open>name\<close> are set; with the directories made on the
  way.\<close>

datatype devpath_choice =
    Dropped
  | Devpath "sys_op list" string
  | Base "sys_op list" string string

definition choose_devpath :: "dev_env \<Rightarrow> uevent \<Rightarrow> string \<Rightarrow> devpath_choice" where
  "choose_devpath env ue name =
     (let subsys = the (subsystem ue)
      in case env_subsystem_find_by_name env subsys of
           Some ss \<Rightarrow>
             (case (case ss_devname_src ss of
                      DEVNAME_UEVENT_DEVNAME \<Rightarrow> Some (device_name ue)
                    | DEVNAME_UEVENT_DEVPATH \<Rightarrow> Some (Some name)
                    | DEVNAME_UNKNOWN \<Rightarrow> None) of
                None \<Rightarrow> Dropped
              | Some devname \<Rightarrow>
                  (case assemble_devpath (ss_dirname ss) devname of
                     None \<Rightarrow> Dropped
                   | Some devpath \<Rightarrow> Devpath (mkdir_recursive_for_devpath devpath) devpath))
         | None \<Rightarrow>
             (if strncmp_eq subsys ''usb'' 3
              then (if subsys = ''usb'' \<or> subsys = ''usbmisc''
                    then (case device_name ue of
                            Some dn \<Rightarrow>
                              (case assemble_devpath ''/dev'' (Some dn) of
                                 None \<Rightarrow> Dropped
                               | Some devpath \<Rightarrow>
                                   Devpath (mkdir_recursive_for_devpath devpath) devpath)
                          | None \<Rightarrow>
                              (let bus_id = minor ue div 128 + 1;
                                   device_id = minor ue mod 128 + 1
                               in Devpath
                                    [MakeDir ''/dev/bus'' 493, MakeDir ''/dev/bus/usb'' 493,
                                     MakeDir (snprintf 96 (''/dev/bus/usb/'' @ printf_03d bus_id))
                                       493]
                                    (snprintf 96 (''/dev/bus/usb/'' @ printf_03d bus_id @ ''/'' @
                                                  printf_03d device_id))))
                    else Dropped)
              else (case choose_base subsys name of
                      (ops, base, name1) \<Rightarrow> Base ops base name1)))"

text \<open>The words of the specification: the text that the handler chooses for the device
  node, base directory plus device name, before it is fitted into \<^verbatim>\<open>devpath\<close>;
  \<open>None\<close> for an event that is ignored whatever the length (a subsystem entry without
  a name source, another \<^verbatim>\<open>usb\<close> subsystem).\<close>

definition devpath_text :: "dev_env \<Rightarrow> uevent \<Rightarrow> string \<Rightarrow> string option" where
  "devpath_text env ue name =
     (case env_subsystem_find_by_name env (the (subsystem ue)) of
        Some ss \<Rightarrow>
          (case ss_devname_src ss of
             DEVNAME_UEVENT_DEVNAME \<Rightarrow> Some (ss_dirname ss @ ''/'' @ printf_s (device_name ue))
           | DEVNAME_UEVENT_DEVPATH \<Rightarrow> Some (ss_dirname ss @ ''/'' @ name)
           | DEVNAME_UNKNOWN \<Rightarrow> None)
      | None \<Rightarrow>
          (if strncmp_eq (the (subsystem ue)) ''usb'' 3
           then (if the (subsystem ue) = ''usb'' \<or> the (subsystem ue) = ''usbmisc''
                 then (case device_name ue of
                         Some dn \<Rightarrow> Some (''/dev/'' @ dn)
                       | None \<Rightarrow>
                           Some (''/dev/bus/usb/'' @ printf_03d (minor ue div 128 + 1) @ ''/'' @
                                 printf_03d (minor ue mod 128 + 1)))
                 else None)
           else (case choose_base (the (subsystem ue)) name of
                   (ops, base, name1) \<Rightarrow> Some (base @ name1))))"

text \<open>The leaf of a devpath: what follows its last slash.\<close>

definition devpath_leaf :: "string \<Rightarrow> string" where
  "devpath_leaf p = rev (takeWhile (\<lambda>c. c \<noteq> CHR ''/'') (rev p))"

text \<open>\<^verbatim>\<open>handle_generic_device_event\<close>. A filled \<^verbatim>\<open>devpath\<close> is never empty, so
  \<^verbatim>\<open>if (!devpath[0])\<close> is the case where \<^verbatim>\<open>base\<close> was set.\<close>

definition handle_generic_device_event ::
  "dev_env \<Rightarrow> perms list \<Rightarrow> platform_node list \<Rightarrow> uevent \<Rightarrow> sys_op list" where
  "handle_generic_device_event env rules platform_names ue =
     (case parse_device_name ue 64 of
        None \<Rightarrow> []
      | Some name \<Rightarrow>
          (case choose_devpath env ue name of
             Dropped \<Rightarrow> []
           | Devpath ops devpath \<Rightarrow>
               (case get_character_device_symlinks platform_names ue of
                  (links, made) \<Rightarrow>
                    ops @ (if made then [Mkdir ''/dev/usb'' 493] else []) @
                    handle_device env rules (the (action ue)) devpath False
                      (major ue) (minor ue) links)
           | Base ops base name1 \<Rightarrow>
               (case get_character_device_symlinks platform_names ue of
                  (links, made) \<Rightarrow>
                    ops @ (if made then [Mkdir ''/dev/usb'' 493] else []) @
                    handle_device env rules (the (action ue))
                      (snprintf 96 (base @ name1)) False (major ue) (minor ue) links)))"

subsection \<open>Module aliases, the blacklist and the deferred queue\<close>

record module_alias_node =
  alias_name :: "string option"
  alias_pattern :: "string option"

record module_blacklist_node =
  blacklist_name :: string
  blacklist_deferred :: bool

text \<open>The three lists of the module engine, and the names passed to
  \<^verbatim>\<open>insmod_by_dep\<close> so far, oldest first.\<close>

record module_state =
  modules_aliases_map :: "module_alias_node list"
  modules_blacklist :: "module_blacklist_node list"
  deferred_module_loading_list :: "module_alias_node list"
  insmod_calls :: "string list"

text \<open>\<^verbatim>\<open>insmod_by_dep\<close> belongs to libcutils. Its result may depend on what was
  loaded before: it is a function of the earlier calls and of the name; 0 is success.\<close>

type_synonym insmod_fn = "string list \<Rightarrow> string \<Rightarrow> int"

text \<open>The loop of \<^verbatim>\<open>is_module_blacklisted_or_deferred\<close>: the first entry with the
  name decides, and the loop is left.\<close>

fun is_module_blacklisted_or_deferred_loop ::
  "string \<Rightarrow> bool \<Rightarrow> module_blacklist_node list \<Rightarrow> int" where
  "is_module_blacklisted_or_deferred_loop name need_deferred [] = 0"
| "is_module_blacklisted_or_deferred_loop name need_deferred (blacklist # nodes) =
     (if name = blacklist_name blacklist
      then (if blacklist_deferred blacklist then (if need_deferred then 2 else 0) else 1)
      else is_module_blacklisted_or_deferred_loop name need_deferred nodes)"

definition is_module_blacklisted_or_deferred ::
  "module_blacklist_node list \<Rightarrow> string option \<Rightarrow> bool \<Rightarrow> int" where
  "is_module_blacklisted_or_deferred blacklist_list name need_deferred =
     (case name of
        None \<Rightarrow> 0
      | Some n \<Rightarrow> is_module_blacklisted_or_deferred_loop n need_deferred blacklist_list)"

text \<open>The loop of \<^verbatim>\<open>load_module_by_device_modalias\<close> over the alias nodes, with
  \<^verbatim>\<open>ret\<close> and the calls of \<^verbatim>\<open>insmod_by_dep\<close> as the state.\<close>

fun load_module_loop ::
  "fnmatch_fn \<Rightarrow> insmod_fn \<Rightarrow> module_blacklist_node list \<Rightarrow> string \<Rightarrow> bool
     \<Rightarrow> module_alias_node list \<Rightarrow> int \<times> string list \<Rightarrow> int \<times> string list" where
  "load_module_loop fnmatch insmod bl ident need_deferred [] (ret, calls) = (ret, calls)"
| "load_module_loop fnmatch insmod bl ident need_deferred (alias # nodes) (ret, calls) =
     (case (alias_name alias, alias_pattern alias) of
        (Some name, Some pattern) \<Rightarrow>
          (if fnmatch pattern ident FNM_NOFLAGS = 0
           then (let ret1 = is_module_blacklisted_or_deferred bl (Some name) need_deferred
                 in if ret1 = 0
                    then load_module_loop fnmatch insmod bl ident need_deferred nodes
                           (insmod calls name, calls @ [name])
                    else load_module_loop fnmatch insmod bl ident need_deferred nodes
                           (ret1, calls))
           else load_module_loop fnmatch insmod bl ident need_deferred nodes (ret, calls))
      | _ \<Rightarrow> load_module_loop fnmatch insmod bl ident need_deferred nodes (ret, calls))"

text \<open>\<^verbatim>\<open>load_module_by_device_modalias\<close>: the return value and the new state.\<close>

definition load_module_by_device_modalias ::
  "fnmatch_fn \<Rightarrow> insmod_fn \<Rightarrow> string \<Rightarrow> bool \<Rightarrow> module_state \<Rightarrow> int \<times> module_state" where
  "load_module_by_device_modalias fnmatch insmod ident need_deferred st =
     (case load_module_loop fnmatch insmod (modules_blacklist st) ident need_deferred
             (modules_aliases_map st) (- 1, insmod_calls st) of
        (ret, calls) \<Rightarrow> (ret, st\<lparr>insmod_calls := calls\<rparr>))"

text \<open>\<^verbatim>\<open>handle_deferred_module_loading\<close>: with a non-empty alias table, every node
  of the queue that has a pattern is tried with \<^verbatim>\<open>need_deferred = false\<close> and
  removed.\<close>

fun handle_deferred_loop ::
  "fnmatch_fn \<Rightarrow> insmod_fn \<Rightarrow> module_alias_node list \<Rightarrow> module_state \<Rightarrow> module_state" where
  "handle_deferred_loop fnmatch insmod [] st = st"
| "handle_deferred_loop fnmatch insmod (alias # nodes) st =
     (case alias_pattern alias of
        Some pattern \<Rightarrow>
          handle_deferred_loop fnmatch insmod nodes
            ((snd (load_module_by_device_modalias fnmatch insmod pattern False st))
               \<lparr>deferred_module_loading_list :=
                  remove1 alias (deferred_module_loading_list st)\<rparr>)
      | None \<Rightarrow> handle_deferred_loop fnmatch insmod nodes st)"

definition handle_deferred_module_loading ::
  "fnmatch_fn \<Rightarrow> insmod_fn \<Rightarrow> module_state \<Rightarrow> module_state" where
  "handle_deferred_module_loading fnmatch insmod st =
     (if modules_aliases_map st \<noteq> []
      then handle_deferred_loop fnmatch insmod (deferred_module_loading_list st) st
      else st)"

text \<open>The tokenizer (\<^verbatim>\<open>next_token\<close>, parser.h) is not part of this file: a
  description file is the list of the tokens it yields before \<^verbatim>\<open>T_EOF\<close>, and
  \<open>None\<close> is a file that cannot be opened or read.\<close>

datatype token = T_NEWLINE | T_TEXT string

definition parse_line_module_alias :: "string list \<Rightarrow> module_state \<Rightarrow> module_state" where
  "parse_line_module_alias args st =
     (if length args \<noteq> 3 then st
      else st\<lparr>modules_aliases_map := modules_aliases_map st @
                [\<lparr>alias_name = Some (args ! 2), alias_pattern = Some (args ! 1)\<rparr>]\<rparr>)"

definition parse_line_module_blacklist :: "string list \<Rightarrow> module_state \<Rightarrow> module_state" where
  "parse_line_module_blacklist args st =
     (if length args \<noteq> 2 then st
      else if strncmp_eq (args ! 0) ''blacklist'' 9
      then st\<lparr>modules_blacklist := modules_blacklist st @
                [\<lparr>blacklist_name = args ! 1, blacklist_deferred = False\<rparr>]\<rparr>
      else if strncmp_eq (args ! 0) ''deferred'' 8
      then st\<lparr>modules_blacklist := modules_blacklist st @
                [\<lparr>blacklist_name = args ! 1, blacklist_deferred = True\<rparr>]\<rparr>
      else st)"

text \<open>The \<^verbatim>\<open>for (;;)\<close> of \<^verbatim>\<open>__read_modules_desc_file\<close>: \<open>args\<close> are the
  \<^verbatim>\<open>nargs\<close> words collected on the line. At \<^verbatim>\<open>T_EOF\<close> the line handler is
  called with no words.\<close>

fun read_modules_desc_loop ::
  "(string list \<Rightarrow> module_state \<Rightarrow> module_state) \<Rightarrow> nat \<Rightarrow> token list \<Rightarrow> string list
     \<Rightarrow> module_state \<Rightarrow> module_state" where
  "read_modules_desc_loop parse_line args_to_read [] args st = parse_line [] st"
| "read_modules_desc_loop parse_line args_to_read (T_NEWLINE # ts) args st =
     (if args \<noteq> []
      then read_modules_desc_loop parse_line args_to_read ts [] (parse_line args st)
      else read_modules_desc_loop parse_line args_to_read ts args st)"
| "read_modules_desc_loop parse_line args_to_read (T_TEXT text # ts) args st =
     (if length args < args_to_read
      then read_modules_desc_loop parse_line args_to_read ts (args @ [text]) st
      else read_modules_desc_loop parse_line args_to_read ts args st)"

definition read_modules_aliases :: "token list option \<Rightarrow> module_state \<Rightarrow> int \<times> module_state" where
  "read_modules_aliases file st =
     (case file of
        None \<Rightarrow> (- 1, st)
      | Some ts \<Rightarrow> (0, read_modules_desc_loop parse_line_module_alias 3 ts [] st))"

definition read_modules_blacklist :: "token list option \<Rightarrow> module_state \<Rightarrow> int \<times> module_state"
  where
  "read_modules_blacklist file st =
     (case file of
        None \<Rightarrow> (- 1, st)
      | Some ts \<Rightarrow> (0, read_modules_desc_loop parse_line_module_blacklist 2 ts [] st))"

text \<open>\<^verbatim>\<open>handle_module_loading\<close>. \<open>alias_file\<close> and \<open>blacklist_file\<close> are the two
  description files as they are at the call, \<open>booting\<close> is what \<^verbatim>\<open>is_booting()\<close>
  returns.\<close>

definition handle_module_loading ::
  "fnmatch_fn \<Rightarrow> insmod_fn \<Rightarrow> token list option \<Rightarrow> token list option \<Rightarrow> bool
     \<Rightarrow> string option \<Rightarrow> module_state \<Rightarrow> module_state" where
  "handle_module_loading fnmatch insmod alias_file blacklist_file booting modalias_arg st =
     (let st1 =
        (if modules_aliases_map st = []
         then (case read_modules_aliases alias_file st of
                 (r, st') \<Rightarrow> if r = 0 then snd (read_modules_blacklist blacklist_file st') else st')
         else st)
      in case modalias_arg of
           None \<Rightarrow> st1
         | Some m \<Rightarrow>
             (if modules_aliases_map st1 = []
              then st1\<lparr>deferred_module_loading_list := deferred_module_loading_list st1 @
                         [\<lparr>alias_name = None, alias_pattern = Some m\<rparr>]\<rparr>
              else (case load_module_by_device_modalias fnmatch insmod m booting st1 of
                      (r, st2) \<Rightarrow>
                        if r = 2
                        then st2\<lparr>deferred_module_loading_list :=
                                   deferred_module_loading_list st2 @
                                   [\<lparr>alias_name = None, alias_pattern = Some m\<rparr>]\<rparr>
                        else st2)))"

subsection \<open>Loading firmware\<close>

text \<open>What the firmware loader sees of the outside. An opened firmware file: the size
  that \<^verbatim>\<open>fstat\<close> reports (\<open>None\<close> when \<^verbatim>\<open>fstat\<close> fails) and the results of
  the successive calls of \<^verbatim>\<open>read\<close>, after which \<^verbatim>\<open>read\<close> returns 0. A
  \<^verbatim>\<open>read\<close> that returns 0 is \<open>ReadBytes []\<close>. The writes to the two sysfs
  files are recorded in their order.\<close>

datatype read_result = ReadBytes string | ReadError

record fw_file =
  fw_fstat :: "int option"
  fw_reads :: "read_result list"

datatype fw_write = WriteLoading string | WriteData string

text \<open>The \<^verbatim>\<open>while (len_to_copy > 0)\<close> of \<^verbatim>\<open>load_firmware\<close>: \<open>write_fully k buf\<close>
  tells whether the \<open>k\<close>-th call of \<^verbatim>\<open>WriteFully\<close> succeeds. The result is
  \<^verbatim>\<open>ret\<close> and the calls of \<^verbatim>\<open>WriteFully\<close>.\<close>

fun load_firmware_loop ::
  "(nat \<Rightarrow> string \<Rightarrow> bool) \<Rightarrow> int \<Rightarrow> read_result list \<Rightarrow> nat \<Rightarrow> int \<times> fw_write list" where
  "load_firmware_loop write_fully len_to_copy [] k = (0, [])"
| "load_firmware_loop write_fully len_to_copy (r # reads) k =
     (if len_to_copy > 0
      then (case r of
              ReadError \<Rightarrow> (- 1, [])
            | ReadBytes buf \<Rightarrow>
                if buf = [] then (0, [])
                else if \<not> write_fully k buf then (- 1, [WriteData buf])
                else (case load_firmware_loop write_fully (len_to_copy - int (length buf))
                             reads (Suc k) of
                        (ret, ws) \<Rightarrow> (ret, WriteData buf # ws)))
      else (0, []))"

text \<open>\<^verbatim>\<open>load_firmware\<close>: when \<^verbatim>\<open>fstat\<close> fails it returns -1 before anything is
  written.\<close>

definition load_firmware ::
  "(nat \<Rightarrow> string \<Rightarrow> bool) \<Rightarrow> fw_file \<Rightarrow> int \<times> fw_write list" where
  "load_firmware write_fully fw =
     (case fw_fstat fw of
        None \<Rightarrow> (- 1, [])
      | Some st_size \<Rightarrow>
          (case load_firmware_loop write_fully st_size (fw_reads fw) 0 of
             (ret, ws) \<Rightarrow>
               (ret, WriteLoading ''1'' # ws @
                     [if ret = 0 then WriteLoading ''0'' else WriteLoading ''-1''])))"

text \<open>\<open>fwe_open k p\<close> is the result of opening the file \<open>p\<close> in the \<open>k\<close>-th round
  of the search, \<open>fwe_booting k\<close> the result of the \<open>k\<close>-th call of
  \<^verbatim>\<open>is_booting\<close>. The array \<^verbatim>\<open>firmware_dirs\<close> depends on the architecture and is a
  parameter.\<close>

record fw_env =
  fwe_loading_opens :: bool
  fwe_data_opens :: bool
  fwe_open :: "nat \<Rightarrow> string \<Rightarrow> fw_file option"
  fwe_booting :: "nat \<Rightarrow> bool"
  fwe_write_fully :: "nat \<Rightarrow> string \<Rightarrow> bool"

fun search_firmware_dirs :: "(string \<Rightarrow> fw_file option) \<Rightarrow> string list \<Rightarrow> string \<Rightarrow> fw_file option"
  where
  "search_firmware_dirs open_file [] fw = None"
| "search_firmware_dirs open_file (dir # dirs) fw =
     (case open_file (dir @ ''/'' @ fw) of
        Some f \<Rightarrow> Some f
      | None \<Rightarrow> search_firmware_dirs open_file dirs fw)"

text \<open>The label \<^verbatim>\<open>try_loading_again\<close>: the search may be repeated for ever while the
  system is booting and the file does not appear, so the result is an option.\<close>

partial_function (option) try_loading ::
  "fw_env \<Rightarrow> string list \<Rightarrow> string \<Rightarrow> nat \<Rightarrow> bool \<Rightarrow> fw_write list option" where
  "try_loading env dirs fw k booting =
     (case search_firmware_dirs (fwe_open env k) dirs fw of
        Some f \<Rightarrow> Some (snd (load_firmware (fwe_write_fully env) f))
      | None \<Rightarrow>
          if booting then try_loading env dirs fw (Suc k) (fwe_booting env (Suc k))
          else Some [WriteLoading ''-1''])"

definition process_firmware_event :: "fw_env \<Rightarrow> string list \<Rightarrow> uevent \<Rightarrow> fw_write list option"
  where
  "process_firmware_event env dirs ue =
     (if \<not> fwe_loading_opens env then Some []
      else if \<not> fwe_data_opens env then Some []
      else try_loading env dirs (the (firmware ue)) 0 (fwe_booting env 0))"

definition handle_firmware_event :: "fw_env \<Rightarrow> string list \<Rightarrow> uevent \<Rightarrow> fw_write list option"
  where
  "handle_firmware_event env dirs ue =
     (if subsystem ue \<noteq> Some ''firmware'' then Some []
      else if action ue \<noteq> Some ''add'' then Some []
      else process_firmware_event env dirs ue)"

text \<open>The words of the specification: the copy fails with an I/O error when, before the
  copy ends, a \<^verbatim>\<open>read\<close> returns an error or \<^verbatim>\<open>WriteFully\<close> fails; and the last
  write to the \<^verbatim>\<open>loading\<close> file.\<close>

fun copy_io_error :: "(nat \<Rightarrow> string \<Rightarrow> bool) \<Rightarrow> int \<Rightarrow> read_result list \<Rightarrow> nat \<Rightarrow> bool" where
  "copy_io_error write_fully len [] k = False"
| "copy_io_error write_fully len (r # reads) k =
     (len > 0 \<and>
      (case r of
         ReadError \<Rightarrow> True
       | ReadBytes buf \<Rightarrow>
           buf \<noteq> [] \<and>
           (\<not> write_fully k buf \<or>
            copy_io_error write_fully (len - int (length buf)) reads (Suc k))))"

fun loading_writes :: "fw_write list \<Rightarrow> string list" where
  "loading_writes [] = []"
| "loading_writes (WriteLoading s # ws) = s # loading_writes ws"
| "loading_writes (WriteData s # ws) = loading_writes ws"

definition last_loading_write :: "fw_write list \<Rightarrow> string option" where
  "last_loading_write ws =
     (case loading_writes ws of [] \<Rightarrow> None | s # ss \<Rightarrow> Some (last (s # ss)))"

subsection \<open>Concrete inputs\<close>

text \<open>Concrete cases: an environment without subsystem entries, and the USB event of
  the specification's fourth scenario.\<close>

definition example_env :: dev_env where
  "example_env =
     \<lparr>env_fnmatch = fnmatch_glob,
      env_sanitize = (\<lambda>s. s),
      env_selabel_lookup_best_match = (\<lambda>p links mode. Some ''u:object_r:device:s0''),
      env_mknod_eexist = (\<lambda>p. False),
      env_subsystem_find_by_name = (\<lambda>n. None)\<rparr>"

definition usb_event :: uevent where
  "usb_event = uevent_init\<lparr>action := Some ''add'',
     path := Some ''/devices/pci0000:00/0000:00:1d.0/usb2/2-1'', subsystem := Some ''usb'',
     device_name := Some ''bus/usb/002/005'', major := 189, minor := 133\<rparr>"

text \<open>The first and second scenario of the specification.\<close>

definition mmc_event :: uevent where
  "mmc_event = uevent_init\<lparr>action := Some ''add'',
     path := Some ''/devices/platform/soc.0/by.pci/mmcblk0p3'', subsystem := Some ''block'',
     partition_name := Some ''user data/bad'', partition_num := 3, major := 179, minor := 3\<rparr>"

text \<open>The fifth scenario of the specification (the file appears in the second round),
  and a file that is nowhere after booting.\<close>

definition firmware_dirs_arm :: "string list" where
  "firmware_dirs_arm = [''/etc/firmware'', ''/vendor/firmware'', ''/firmware/image'']"

definition fw_event :: uevent where
  "fw_event = uevent_init\<lparr>action := Some ''add'', path := Some ''/devices/virtual/firmware/foo'',
     subsystem := Some ''firmware'', firmware := Some ''foo.bin''\<rparr>"

definition fw_env_retry :: fw_env where
  "fw_env_retry =
     \<lparr>fwe_loading_opens = True, fwe_data_opens = True,
      fwe_open = (\<lambda>k p. if k = 1 \<and> p = ''/vendor/firmware/foo.bin''
                         then Some \<lparr>fw_fstat = Some 5, fw_reads = [ReadBytes ''hello'']\<rparr>
                         else None),
      fwe_booting = (\<lambda>k. True),
      fwe_write_fully = (\<lambda>k buf. True)\<rparr>"

definition fw_env_absent :: fw_env where
  "fw_env_absent =
     \<lparr>fwe_loading_opens = True, fwe_data_opens = True,
      fwe_open = (\<lambda>k p. None),
      fwe_booting = (\<lambda>k. False),
      fwe_write_fully = (\<lambda>k buf. True)\<rparr>"

text \<open>A firmware file that is found in the first directory and whose \<^verbatim>\<open>fstat\<close>
  fails.\<close>

definition fw_env_fstat_fails :: fw_env where
  "fw_env_fstat_fails =
     \<lparr>fwe_loading_opens = True, fwe_data_opens = True,
      fwe_open = (\<lambda>k p. if p = ''/etc/firmware/foo.bin''
                         then Some \<lparr>fw_fstat = None, fw_reads = [ReadBytes ''hello'']\<rparr>
                         else None),
      fwe_booting = (\<lambda>k. False),
      fwe_write_fully = (\<lambda>k buf. True)\<rparr>"

section \<open>Properties\<close>

subsection \<open>Permission resolution\<close>

lemma links_match_list_ex:
  "links_match fnmatch ls dp = list_ex (\<lambda>l. perm_path_matches fnmatch l dp) ls"
  by (induction ls) simp_all

lemma get_device_perm_loop_find:
  "get_device_perm_loop fnmatch p links nodes =
     (case find (\<lambda>dp. perm_path_matches fnmatch p dp \<or>
                  list_ex (\<lambda>l. perm_path_matches fnmatch l dp)
                    (case links of None \<Rightarrow> [] | Some ls \<Rightarrow> ls)) nodes of
        None \<Rightarrow> (384, 0, 0)
      | Some dp \<Rightarrow> (dp_perm dp, dp_uid dp, dp_gid dp))"
  by (induction nodes) (simp_all add: links_match_list_ex split: option.split)

text \<open>
  C1. For every path and every optional array of links, \<^verbatim>\<open>get_device_perm\<close> returns
  the mode, uid and gid of the first rule, in reverse insertion order of
  \<^verbatim>\<open>dev_perms\<close>, that matches the path or else one of the links by
  \<^verbatim>\<open>perm_path_matches\<close> (prefix, glob or exact, as the rule says); when no rule
  matches it returns mode 0600 (384), uid 0 and gid 0.
\<close>

theorem get_device_perm_first_match:
  "get_device_perm fnmatch rules p links =
     (case find (\<lambda>dp. perm_path_matches fnmatch p dp \<or>
                  list_ex (\<lambda>l. perm_path_matches fnmatch l dp)
                    (case links of None \<Rightarrow> [] | Some ls \<Rightarrow> ls)) (rev rules) of
        None \<Rightarrow> (384, 0, 0)
      | Some dp \<Rightarrow> (dp_perm dp, dp_uid dp, dp_gid dp))"
  unfolding get_device_perm_def by (rule get_device_perm_loop_find)

text \<open>The test is made rule by rule: a newer rule that matches only a link goes before
  an older rule that matches the path itself.\<close>

lemma get_device_perm_newest_rule_wins:
  "get_device_perm fnmatch_glob
     [\<lparr>dp_name = ''/dev/block/sda'', dp_attr = None, dp_perm = 432, dp_uid = 0, dp_gid = 1000,
       dp_prefix = 0, dp_wildcard = 0\<rparr>,
      \<lparr>dp_name = ''/dev/block/platform/*/by-name/*'', dp_attr = None, dp_perm = 416, dp_uid = 1000,
       dp_gid = 1001, dp_prefix = 0, dp_wildcard = 1\<rparr>]
     ''/dev/block/sda'' (Some [''/dev/block/platform/soc.0/by-name/system''])
   = (416, 1000, 1001)"
  by (simp add: get_device_perm_def perm_path_matches_def fnmatch_glob_def)

lemma get_device_perm_default:
  "get_device_perm fnmatch_glob [] ''/dev/null'' None = (384, 0, 0)"
  by (simp add: get_device_perm_def)

subsection \<open>The registry keeps no invariant on its own\<close>

lemma remove_platform_device_loop_subseq:
  "distinct (map bus_path nodes) \<Longrightarrow> distinct (map bus_path (remove_platform_device_loop p nodes))
     \<and> set (remove_platform_device_loop p nodes) \<subseteq> set nodes"
  by (induction nodes) auto

lemma remove_platform_device_distinct:
  "distinct (map bus_path names) \<Longrightarrow> distinct (map bus_path (remove_platform_device p names))"
  using remove_platform_device_loop_subseq[of "rev names" p]
  by (simp add: remove_platform_device_def rev_map[symmetric])

lemma add_platform_device_paths:
  "map bus_path (add_platform_device p names) = map bus_path names @ [p]"
  by (simp add: add_platform_device_def Let_def)

lemma add_platform_device_distinct:
  "distinct (map bus_path (add_platform_device p names)) =
     (distinct (map bus_path names) \<and> p \<notin> set (map bus_path names))"
  by (auto simp: add_platform_device_paths)

text \<open>
  C4 (as amended). From a registry whose paths are pairwise distinct, every sequence of
  platform add and remove events in which no add names a path that the registry holds at
  that moment leads to a registry whose paths are pairwise distinct:
  \<^verbatim>\<open>remove_platform_device\<close> keeps distinctness, and \<^verbatim>\<open>add_platform_device\<close> keeps
  it when the path is new.
\<close>

theorem platform_events_distinct:
  "distinct (map bus_path names) \<Longrightarrow> adds_fresh ues names \<Longrightarrow>
     distinct (map bus_path (platform_events ues names))"
proof (induction ues arbitrary: names)
  case Nil
  then show ?case by simp
next
  case (Cons ue ues)
  have "distinct (map bus_path (handle_platform_device_event ue names))"
    using Cons.prems
    by (auto simp: handle_platform_device_event_def add_platform_device_distinct
          remove_platform_device_distinct simp del: set_map)
  with Cons show ?case by simp
qed

text \<open>Two \<^verbatim>\<open>add\<close> events for one path, as coldboot sends for a device that was
  announced before, leave two entries with that path.\<close>

theorem platform_events_duplicate_counterexample:
  "\<not> distinct (map bus_path
      (platform_events
         [uevent_init\<lparr>action := Some ''add'', path := Some ''/devices/platform/soc.0''\<rparr>,
          uevent_init\<lparr>action := Some ''add'', path := Some ''/devices/platform/soc.0''\<rparr>] []))"
  by (simp add: handle_platform_device_event_def add_platform_device_def uevent_init_def)

theorem platform_events_distinct_witness:
  "distinct (map bus_path ([] :: platform_node list)) \<and>
   adds_fresh
     [uevent_init\<lparr>action := Some ''add'', path := Some ''/devices/platform/soc.0''\<rparr>,
      uevent_init\<lparr>action := Some ''add'', path := Some ''/devices/platform/soc.1''\<rparr>,
      uevent_init\<lparr>action := Some ''remove'', path := Some ''/devices/platform/soc.0''\<rparr>,
      uevent_init\<lparr>action := Some ''add'', path := Some ''/devices/platform/soc.0''\<rparr>] [] \<and>
   distinct (map bus_path
     (platform_events
        [uevent_init\<lparr>action := Some ''add'', path := Some ''/devices/platform/soc.0''\<rparr>,
         uevent_init\<lparr>action := Some ''add'', path := Some ''/devices/platform/soc.1''\<rparr>,
         uevent_init\<lparr>action := Some ''remove'', path := Some ''/devices/platform/soc.0''\<rparr>,
         uevent_init\<lparr>action := Some ''add'', path := Some ''/devices/platform/soc.0''\<rparr>] []))"
proof -
  have d: "distinct (map bus_path ([] :: platform_node list))" by simp
  have f: "adds_fresh
     [uevent_init\<lparr>action := Some ''add'', path := Some ''/devices/platform/soc.0''\<rparr>,
      uevent_init\<lparr>action := Some ''add'', path := Some ''/devices/platform/soc.1''\<rparr>,
      uevent_init\<lparr>action := Some ''remove'', path := Some ''/devices/platform/soc.0''\<rparr>,
      uevent_init\<lparr>action := Some ''add'', path := Some ''/devices/platform/soc.0''\<rparr>] []"
    by (simp add: handle_platform_device_event_def add_platform_device_def uevent_init_def
          remove_platform_device_def strncmp_eq_def)
  show ?thesis by (rule conjI[OF d conjI[OF f platform_events_distinct[OF d f]]])
qed

subsection \<open>The PCI prefix ends at the second slash\<close>

lemma before_nth_1: "before_nth (Suc 0) c s = (if c \<in> set s then Some (takeWhile (\<lambda>x. x \<noteq> c) s) else None)"
  by (induction s) auto

lemma before_nth_2: "before_nth 2 c s =
  (if c \<in> set s \<and> c \<in> set (tl (dropWhile (\<lambda>x. x \<noteq> c) s))
   then Some (takeWhile (\<lambda>x. x \<noteq> c) s @ c # takeWhile (\<lambda>x. x \<noteq> c) (tl (dropWhile (\<lambda>x. x \<noteq> c) s)))
   else None)"
  by (induction s) (auto simp: before_nth_1 numeral_2_eq_2)

lemma split_at_second:
  assumes "c \<in> set s" "c \<in> set (tl (dropWhile (\<lambda>x. x \<noteq> c) s))"
  shows "s = (takeWhile (\<lambda>x. x \<noteq> c) s @ c # takeWhile (\<lambda>x. x \<noteq> c) (tl (dropWhile (\<lambda>x. x \<noteq> c) s)))
            @ dropWhile (\<lambda>x. x \<noteq> c) (tl (dropWhile (\<lambda>x. x \<noteq> c) s))"
proof -
  let ?P = "\<lambda>x. x \<noteq> c"
  from assms(1) have "dropWhile ?P s \<noteq> []" by simp
  moreover have "hd (dropWhile ?P s) = c" using assms(1) hd_dropWhile[of ?P s] calculation by auto
  ultimately have d: "dropWhile ?P s = c # tl (dropWhile ?P s)" by (metis list.collapse)
  have "s = takeWhile ?P s @ dropWhile ?P s" by simp
  also have "\<dots> = takeWhile ?P s @ c # tl (dropWhile ?P s)" using d by simp
  also have "\<dots> = takeWhile ?P s @ c # (takeWhile ?P (tl (dropWhile ?P s)) @ dropWhile ?P (tl (dropWhile ?P s)))" by simp
  finally show ?thesis by simp
qed

lemma length_take_append:
  "s = b @ e \<Longrightarrow> int (length s) - int (length e) = int (length b) \<and> take (length b) s = b"
  by simp

lemma find_pci_device_prefix_core:
  "(case strchr s c of
      None \<Rightarrow> None
    | Some end1 \<Rightarrow>
        (case strchr (tl end1) c of
           None \<Rightarrow> None
         | Some end2 \<Rightarrow>
             (let n = int (length s) - int (length end2)
              in if n + 1 > bs then None else Some (take (nat n) s)))) =
   (case before_nth 2 c s of
      None \<Rightarrow> None
    | Some b \<Rightarrow> if int (length b) + 1 \<le> bs then Some b else None)"
proof (cases "c \<in> set s \<and> c \<in> set (tl (dropWhile (\<lambda>x. x \<noteq> c) s))")
  case True
  define b where "b = takeWhile (\<lambda>x. x \<noteq> c) s @ c # takeWhile (\<lambda>x. x \<noteq> c) (tl (dropWhile (\<lambda>x. x \<noteq> c) s))"
  define e where "e = dropWhile (\<lambda>x. x \<noteq> c) (tl (dropWhile (\<lambda>x. x \<noteq> c) s))"
  have s: "s = b @ e" unfolding b_def e_def using split_at_second[of c s] True by blast
  have L1: "strchr s c = Some (dropWhile (\<lambda>x. x \<noteq> c) s)" using True by (simp add: strchr_def)
  have L2: "strchr (tl (dropWhile (\<lambda>x. x \<noteq> c) s)) c = Some e"
    using True by (simp add: strchr_def e_def)
  have B: "before_nth 2 c s = Some b" using True by (simp add: before_nth_2 b_def)
  have n: "int (length s) - int (length e) = int (length b)" "take (length b) s = b"
    using length_take_append[OF s] by blast+
  show ?thesis
    by (simp only: L1 L2 B option.case Let_def n nat_int) auto
next
  case False
  then show ?thesis
    by (auto simp: strchr_def before_nth_2)
qed

text \<open>
  C7 (as amended). For every devpath and buffer size, \<^verbatim>\<open>find_pci_device_prefix\<close> returns
  0 and fills the buffer with the part of the devpath from offset 9 up to, and without,
  the second slash after that offset, when the devpath begins with \<^verbatim>\<open>/devices/pci\<close>,
  has two slashes after offset 9 and the buffer has room for the result and a NUL; in
  every other case it returns -1.
\<close>

theorem find_pci_device_prefix_second_slash:
  "find_pci_device_prefix p buf_sz = pci_prefix_spec 2 p buf_sz"
proof (cases "take 12 p = ''/devices/pci''")
  case True
  have t: "take 12 ''/devices/pci'' = ''/devices/pci''" by simp
  show ?thesis
    unfolding find_pci_device_prefix_def pci_prefix_spec_def strncmp_eq_def
    by (simp only: t True find_pci_device_prefix_core[unfolded Let_def] Let_def if_True if_False simp_thms)
next
  case False
  then show ?thesis
    unfolding find_pci_device_prefix_def pci_prefix_spec_def strncmp_eq_def
    by simp
qed

text \<open>With the third slash the prefix would take in one more component.\<close>

theorem find_pci_device_prefix_third_slash_counterexample:
  "find_pci_device_prefix ''/devices/pci0000:00/0000:00:1f.2/ata1/host0'' 256
     = Some ''pci0000:00/0000:00:1f.2'' \<and>
   pci_prefix_spec 3 ''/devices/pci0000:00/0000:00:1f.2/ata1/host0'' 256
     = Some ''pci0000:00/0000:00:1f.2/ata1''"
  by (simp add: find_pci_device_prefix_def pci_prefix_spec_def strncmp_eq_def strchr_def
        numeral_3_eq_3)

subsection \<open>What parse_event stores\<close>

lemma takeWhile_dropWhile_Nil: "takeWhile P (dropWhile P xs) = []"
  by (induction xs) auto

lemma c_str_drop:
  assumes "k \<le> length (c_str m)"
  shows "c_str (drop k m) = drop k (c_str m)" and "skip_record (drop k m) = skip_record m"
proof -
  let ?P = "\<lambda>c. c \<noteq> NUL"
  have k: "k \<le> length (takeWhile ?P m)" using assms by (simp add: c_str_def)
  have d: "drop k m = drop k (takeWhile ?P m) @ dropWhile ?P m"
    using k by (metis diff_is_0_eq drop0 drop_append takeWhile_dropWhile_id)
  have all: "\<forall>x \<in> set (drop k (takeWhile ?P m)). x \<noteq> NUL"
    using set_takeWhileD[of _ ?P m] in_set_dropD[of _ k "takeWhile ?P m"] by blast
  have "takeWhile ?P (drop k (takeWhile ?P m) @ dropWhile ?P m)
          = drop k (takeWhile ?P m) @ takeWhile ?P (dropWhile ?P m)"
    by (rule takeWhile_append2) (use all in blast)
  then have "takeWhile ?P (drop k m) = drop k (takeWhile ?P m) @ takeWhile ?P (dropWhile ?P m)"
    by (simp only: d[symmetric])
  moreover have "takeWhile ?P (dropWhile ?P m) = []"
    by (rule takeWhile_dropWhile_Nil)
  ultimately show "c_str (drop k m) = drop k (c_str m)" by (simp add: c_str_def)
  have "dropWhile ?P (drop k (takeWhile ?P m) @ dropWhile ?P m) = dropWhile ?P (dropWhile ?P m)"
    by (rule dropWhile_append2) (use all in blast)
  then have "dropWhile ?P (drop k m) = dropWhile ?P m"
    by (simp only: d[symmetric] dropWhile_idem)
  then show "skip_record (drop k m) = skip_record m" by (simp add: skip_record_def)
qed

lemma strncmp_eq_length: "strncmp_eq r t k \<Longrightarrow> k \<le> length t \<Longrightarrow> k \<le> length r"
  unfolding strncmp_eq_def by (metis length_take min.absorb2 min.cobounded1)

lemma tag_c_str:
  assumes "strncmp_eq (c_str m) t k" "k \<le> length t"
  shows "c_str (drop k m) = drop k (c_str m)" and "skip_record (drop k m) = skip_record m"
  using c_str_drop[OF strncmp_eq_length[OF assms]] by blast+

lemma parse_tag_snd:
  "snd (parse_tag atoi m ue) = apply_record atoi (c_str m) ue"
  unfolding parse_tag_def apply_record_def
  by (simp add: tag_c_str(1) cong: if_cong)

lemma parse_tag_fst:
  "skip_record (fst (parse_tag atoi m ue)) = skip_record m"
  unfolding parse_tag_def
  by (simp add: tag_c_str(2) cong: if_cong)

lemma parse_event_loop_fold:
  "parse_event_loop atoi m ue = fold (apply_record atoi) (records m) ue"
proof (induction atoi m ue rule: parse_event_loop.induct)
  case (1 atoi m ue)
  show ?case
  proof (cases "m = [] \<or> hd m = NUL")
    case True
    then show ?thesis by (subst parse_event_loop.simps, subst records.simps) simp
  next
    case False
    have "parse_event_loop atoi m ue =
            parse_event_loop atoi (skip_record m) (apply_record atoi (c_str m) ue)"
      using False by (subst parse_event_loop.simps) (simp add: parse_tag_snd parse_tag_fst)
    also have "\<dots> = fold (apply_record atoi) (records (skip_record m)) (apply_record atoi (c_str m) ue)"
      using 1[OF False] by (simp add: parse_tag_snd parse_tag_fst)
    also have "\<dots> = fold (apply_record atoi) (records m) ue"
      using False by (subst (2) records.simps) simp
    finally show ?thesis .
  qed
qed

text \<open>The first six bytes tell the ten tags apart.\<close>

lemma strncmp_eq_take6: "strncmp_eq r t k \<Longrightarrow> 6 \<le> k \<Longrightarrow> take 6 r = take 6 t"
  unfolding strncmp_eq_def by (metis min.absorb1 take_take)

lemma strncmp_eq_other:
  "take 6 r = a \<Longrightarrow> 6 \<le> k \<Longrightarrow> take 6 t \<noteq> a \<Longrightarrow> strncmp_eq r t k = False"
  using strncmp_eq_take6[of r t k] by auto

lemma apply_record_fields:
  "action (apply_record atoi r ue) =
       (if strncmp_eq r ''ACTION='' 7 then Some (drop 7 r) else action ue) \<and>
     path (apply_record atoi r ue) =
       (if strncmp_eq r ''DEVPATH='' 8 then Some (drop 8 r) else path ue) \<and>
     subsystem (apply_record atoi r ue) =
       (if strncmp_eq r ''SUBSYSTEM='' 10 then Some (drop 10 r) else subsystem ue) \<and>
     firmware (apply_record atoi r ue) =
       (if strncmp_eq r ''FIRMWARE='' 9 then Some (drop 9 r) else firmware ue) \<and>
     major (apply_record atoi r ue) =
       (if strncmp_eq r ''MAJOR='' 6 then atoi (drop 6 r) else major ue) \<and>
     minor (apply_record atoi r ue) =
       (if strncmp_eq r ''MINOR='' 6 then atoi (drop 6 r) else minor ue) \<and>
     partition_num (apply_record atoi r ue) =
       (if strncmp_eq r ''PARTN='' 6 then atoi (drop 6 r) else partition_num ue) \<and>
     partition_name (apply_record atoi r ue) =
       (if strncmp_eq r ''PARTNAME='' 9 then Some (drop 9 r) else partition_name ue) \<and>
     device_name (apply_record atoi r ue) =
       (if strncmp_eq r ''DEVNAME='' 8 then Some (drop 8 r) else device_name ue) \<and>
     modalias (apply_record atoi r ue) =
       (if strncmp_eq r ''MODALIAS='' 9 then Some (drop 9 r) else modalias ue)"
proof -
  consider (t0) "strncmp_eq r ''ACTION='' 7"
    | (t1) "strncmp_eq r ''DEVPATH='' 8"
    | (t2) "strncmp_eq r ''SUBSYSTEM='' 10"
    | (t3) "strncmp_eq r ''FIRMWARE='' 9"
    | (t4) "strncmp_eq r ''MAJOR='' 6"
    | (t5) "strncmp_eq r ''MINOR='' 6"
    | (t6) "strncmp_eq r ''PARTN='' 6"
    | (t7) "strncmp_eq r ''PARTNAME='' 9"
    | (t8) "strncmp_eq r ''DEVNAME='' 8"
    | (t9) "strncmp_eq r ''MODALIAS='' 9"
    | (none) "\<not> strncmp_eq r ''ACTION='' 7 \<and> \<not> strncmp_eq r ''DEVPATH='' 8 \<and> \<not> strncmp_eq r ''SUBSYSTEM='' 10 \<and> \<not> strncmp_eq r ''FIRMWARE='' 9 \<and> \<not> strncmp_eq r ''MAJOR='' 6 \<and> \<not> strncmp_eq r ''MINOR='' 6 \<and> \<not> strncmp_eq r ''PARTN='' 6 \<and> \<not> strncmp_eq r ''PARTNAME='' 9 \<and> \<not> strncmp_eq r ''DEVNAME='' 8 \<and> \<not> strncmp_eq r ''MODALIAS='' 9"
    by blast
  then show ?thesis
  proof cases
    case t0
    have "take 6 r = ''ACTION''" using strncmp_eq_take6[OF t0] by simp
    from strncmp_eq_other[OF this] t0 show ?thesis
      by (simp add: apply_record_def)
  next
    case t1
    have "take 6 r = ''DEVPAT''" using strncmp_eq_take6[OF t1] by simp
    from strncmp_eq_other[OF this] t1 show ?thesis
      by (simp add: apply_record_def)
  next
    case t2
    have "take 6 r = ''SUBSYS''" using strncmp_eq_take6[OF t2] by simp
    from strncmp_eq_other[OF this] t2 show ?thesis
      by (simp add: apply_record_def)
  next
    case t3
    have "take 6 r = ''FIRMWA''" using strncmp_eq_take6[OF t3] by simp
    from strncmp_eq_other[OF this] t3 show ?thesis
      by (simp add: apply_record_def)
  next
    case t4
    have "take 6 r = ''MAJOR=''" using strncmp_eq_take6[OF t4] by simp
    from strncmp_eq_other[OF this] t4 show ?thesis
      by (simp add: apply_record_def)
  next
    case t5
    have "take 6 r = ''MINOR=''" using strncmp_eq_take6[OF t5] by simp
    from strncmp_eq_other[OF this] t5 show ?thesis
      by (simp add: apply_record_def)
  next
    case t6
    have "take 6 r = ''PARTN=''" using strncmp_eq_take6[OF t6] by simp
    from strncmp_eq_other[OF this] t6 show ?thesis
      by (simp add: apply_record_def)
  next
    case t7
    have "take 6 r = ''PARTNA''" using strncmp_eq_take6[OF t7] by simp
    from strncmp_eq_other[OF this] t7 show ?thesis
      by (simp add: apply_record_def)
  next
    case t8
    have "take 6 r = ''DEVNAM''" using strncmp_eq_take6[OF t8] by simp
    from strncmp_eq_other[OF this] t8 show ?thesis
      by (simp add: apply_record_def)
  next
    case t9
    have "take 6 r = ''MODALI''" using strncmp_eq_take6[OF t9] by simp
    from strncmp_eq_other[OF this] t9 show ?thesis
      by (simp add: apply_record_def)
  next
    case none
    then show ?thesis by (simp add: apply_record_def)
  qed
qed

lemma fold_apply_record_field:
  assumes "\<And>r ue. f (apply_record atoi r ue) = (if has_tag t r then g (drop (length t) r) else f ue)"
  shows "f (fold (apply_record atoi) rs ue) =
           (case tag_value t rs of None \<Rightarrow> f ue | Some v \<Rightarrow> g v)"
  by (induction rs arbitrary: ue) (simp_all add: assms split: option.split)

lemma tag_value_None_iff: "tag_value t rs = None \<longleftrightarrow> (\<forall>r \<in> set rs. \<not> has_tag t r)"
  by (induction rs) (auto split: option.splits)

text \<open>
  C9. After \<^verbatim>\<open>parse_event\<close> on a message, \<^verbatim>\<open>action\<close>, \<^verbatim>\<open>path\<close>,
  \<^verbatim>\<open>subsystem\<close> and \<^verbatim>\<open>firmware\<close> are never NULL: each is the value of its tag,
  and the empty string when the tag is absent. \<^verbatim>\<open>partition_name\<close>,
  \<^verbatim>\<open>device_name\<close> and \<^verbatim>\<open>modalias\<close> are NULL exactly when their tag is absent,
  and the value of the tag otherwise. \<^verbatim>\<open>major\<close>, \<^verbatim>\<open>minor\<close> and
  \<^verbatim>\<open>partition_num\<close> are -1 when their tag is absent and \<^verbatim>\<open>atoi\<close> of the value
  otherwise. Where a tag occurs more than once, its last record counts.
\<close>

theorem parse_event_fields:
  "action (parse_event atoi msg) =
       Some (case tag_value ''ACTION='' (records msg) of None \<Rightarrow> [] | Some v \<Rightarrow> v) \<and>
     path (parse_event atoi msg) =
       Some (case tag_value ''DEVPATH='' (records msg) of None \<Rightarrow> [] | Some v \<Rightarrow> v) \<and>
     subsystem (parse_event atoi msg) =
       Some (case tag_value ''SUBSYSTEM='' (records msg) of None \<Rightarrow> [] | Some v \<Rightarrow> v) \<and>
     firmware (parse_event atoi msg) =
       Some (case tag_value ''FIRMWARE='' (records msg) of None \<Rightarrow> [] | Some v \<Rightarrow> v) \<and>
     major (parse_event atoi msg) =
       (case tag_value ''MAJOR='' (records msg) of None \<Rightarrow> - 1 | Some v \<Rightarrow> atoi v) \<and>
     minor (parse_event atoi msg) =
       (case tag_value ''MINOR='' (records msg) of None \<Rightarrow> - 1 | Some v \<Rightarrow> atoi v) \<and>
     partition_num (parse_event atoi msg) =
       (case tag_value ''PARTN='' (records msg) of None \<Rightarrow> - 1 | Some v \<Rightarrow> atoi v) \<and>
     partition_name (parse_event atoi msg) = tag_value ''PARTNAME='' (records msg) \<and>
     device_name (parse_event atoi msg) = tag_value ''DEVNAME='' (records msg) \<and>
     modalias (parse_event atoi msg) = tag_value ''MODALIAS='' (records msg)"
proof -
  have len:
    "length ''ACTION='' = 7"
    "length ''DEVPATH='' = 8"
    "length ''SUBSYSTEM='' = 10"
    "length ''FIRMWARE='' = 9"
    "length ''MAJOR='' = 6"
    "length ''MINOR='' = 6"
    "length ''PARTN='' = 6"
    "length ''PARTNAME='' = 9"
    "length ''DEVNAME='' = 8"
    "length ''MODALIAS='' = 9"
    by simp_all
  have tk:
    "take 7 ''ACTION='' = ''ACTION=''"
    "take 8 ''DEVPATH='' = ''DEVPATH=''"
    "take 10 ''SUBSYSTEM='' = ''SUBSYSTEM=''"
    "take 9 ''FIRMWARE='' = ''FIRMWARE=''"
    "take 6 ''MAJOR='' = ''MAJOR=''"
    "take 6 ''MINOR='' = ''MINOR=''"
    "take 6 ''PARTN='' = ''PARTN=''"
    "take 9 ''PARTNAME='' = ''PARTNAME=''"
    "take 8 ''DEVNAME='' = ''DEVNAME=''"
    "take 9 ''MODALIAS='' = ''MODALIAS=''"
    by simp_all
  have action: "action (fold (apply_record atoi) rs ue) =
      (case tag_value ''ACTION='' rs of None \<Rightarrow> action ue | Some v \<Rightarrow> Some v)" for rs ue
    by (rule fold_apply_record_field) (simp only: has_tag_def len tk apply_record_fields strncmp_eq_def)
  have path: "path (fold (apply_record atoi) rs ue) =
      (case tag_value ''DEVPATH='' rs of None \<Rightarrow> path ue | Some v \<Rightarrow> Some v)" for rs ue
    by (rule fold_apply_record_field) (simp only: has_tag_def len tk apply_record_fields strncmp_eq_def)
  have subsystem: "subsystem (fold (apply_record atoi) rs ue) =
      (case tag_value ''SUBSYSTEM='' rs of None \<Rightarrow> subsystem ue | Some v \<Rightarrow> Some v)" for rs ue
    by (rule fold_apply_record_field) (simp only: has_tag_def len tk apply_record_fields strncmp_eq_def)
  have firmware: "firmware (fold (apply_record atoi) rs ue) =
      (case tag_value ''FIRMWARE='' rs of None \<Rightarrow> firmware ue | Some v \<Rightarrow> Some v)" for rs ue
    by (rule fold_apply_record_field) (simp only: has_tag_def len tk apply_record_fields strncmp_eq_def)
  have major: "major (fold (apply_record atoi) rs ue) =
      (case tag_value ''MAJOR='' rs of None \<Rightarrow> major ue | Some v \<Rightarrow> atoi v)" for rs ue
    by (rule fold_apply_record_field) (simp only: has_tag_def len tk apply_record_fields strncmp_eq_def)
  have minor: "minor (fold (apply_record atoi) rs ue) =
      (case tag_value ''MINOR='' rs of None \<Rightarrow> minor ue | Some v \<Rightarrow> atoi v)" for rs ue
    by (rule fold_apply_record_field) (simp only: has_tag_def len tk apply_record_fields strncmp_eq_def)
  have partition_num: "partition_num (fold (apply_record atoi) rs ue) =
      (case tag_value ''PARTN='' rs of None \<Rightarrow> partition_num ue | Some v \<Rightarrow> atoi v)" for rs ue
    by (rule fold_apply_record_field) (simp only: has_tag_def len tk apply_record_fields strncmp_eq_def)
  have partition_name: "partition_name (fold (apply_record atoi) rs ue) =
      (case tag_value ''PARTNAME='' rs of None \<Rightarrow> partition_name ue | Some v \<Rightarrow> Some v)" for rs ue
    by (rule fold_apply_record_field) (simp only: has_tag_def len tk apply_record_fields strncmp_eq_def)
  have device_name: "device_name (fold (apply_record atoi) rs ue) =
      (case tag_value ''DEVNAME='' rs of None \<Rightarrow> device_name ue | Some v \<Rightarrow> Some v)" for rs ue
    by (rule fold_apply_record_field) (simp only: has_tag_def len tk apply_record_fields strncmp_eq_def)
  have modalias: "modalias (fold (apply_record atoi) rs ue) =
      (case tag_value ''MODALIAS='' rs of None \<Rightarrow> modalias ue | Some v \<Rightarrow> Some v)" for rs ue
    by (rule fold_apply_record_field) (simp only: has_tag_def len tk apply_record_fields strncmp_eq_def)
  show ?thesis
    unfolding parse_event_def parse_event_loop_fold
    by (simp only: action path subsystem firmware major minor partition_num partition_name device_name modalias) (simp add: uevent_init_def split: option.split)
qed

subsection \<open>Loading modules and the blacklist\<close>

lemma is_module_blacklisted_or_deferred_loop_find:
  "is_module_blacklisted_or_deferred_loop n need_deferred bl =
     (case find (\<lambda>b. blacklist_name b = n) bl of
        None \<Rightarrow> 0
      | Some b \<Rightarrow> if blacklist_deferred b then (if need_deferred then 2 else 0) else 1)"
  by (induction bl) auto

lemma load_module_loop_calls:
  assumes "is_module_blacklisted_or_deferred bl (Some n) need_deferred \<noteq> 0"
  shows "\<exists>new. snd (load_module_loop fnmatch insmod bl ident need_deferred nodes (r0, cs))
                 = cs @ new \<and> n \<notin> set new"
proof (induction nodes arbitrary: r0 cs)
  case Nil
  then show ?case by simp
next
  case (Cons node nodes)
  show ?case
  proof (cases "alias_name node")
    case None
    then show ?thesis using Cons by simp
  next
    case (Some name)
    note name = this
    show ?thesis
    proof (cases "alias_pattern node")
      case None
      then show ?thesis using Cons name by simp
    next
      case (Some pattern)
      show ?thesis
      proof (cases "fnmatch pattern ident FNM_NOFLAGS = 0 \<and>
                    is_module_blacklisted_or_deferred bl (Some name) need_deferred = 0")
        case True
        then have "name \<noteq> n" using assms by auto
        obtain new where
          "snd (load_module_loop fnmatch insmod bl ident need_deferred nodes
                 (insmod cs name, cs @ [name])) = (cs @ [name]) @ new" "n \<notin> set new"
          using Cons[of "insmod cs name" "cs @ [name]"] by blast
        then show ?thesis using True name Some \<open>name \<noteq> n\<close>
          by (intro exI[of _ "name # new"]) simp
      next
        case False
        then show ?thesis using Cons name Some by (auto simp: Let_def)
      qed
    qed
  qed
qed

text \<open>
  C2 (as amended). For every MODALIAS string, every alias table and every blacklist: if
  the first blacklist entry that bears a module's name has \<^verbatim>\<open>deferred = false\<close>, or if
  the name is in the blacklist at all and \<^verbatim>\<open>need_deferred\<close> is true, then
  \<^verbatim>\<open>load_module_by_device_modalias\<close> never passes that name to
  \<^verbatim>\<open>insmod_by_dep\<close>.
\<close>

theorem blacklisted_module_never_loaded:
  assumes "find (\<lambda>b. blacklist_name b = n) (modules_blacklist st) = Some b"
      and "\<not> blacklist_deferred b \<or> need_deferred"
  shows "n \<notin> set (drop (length (insmod_calls st))
                 (insmod_calls (snd (load_module_by_device_modalias fnmatch insmod ident
                                       need_deferred st))))"
proof -
  have "is_module_blacklisted_or_deferred (modules_blacklist st) (Some n) need_deferred \<noteq> 0"
    using assms
    by (auto simp: is_module_blacklisted_or_deferred_def is_module_blacklisted_or_deferred_loop_find)
  from load_module_loop_calls[OF this, of fnmatch insmod ident "modules_aliases_map st" "- 1" "insmod_calls st"]
  obtain new where
    "snd (load_module_loop fnmatch insmod (modules_blacklist st) ident need_deferred
           (modules_aliases_map st) (- 1, insmod_calls st)) = insmod_calls st @ new"
    "n \<notin> set new"
    by blast
  then show ?thesis
    by (auto simp: load_module_by_device_modalias_def split: prod.split)
qed

lemma glob_usb: "fnmatch_glob ''usb:v1234*'' ''usb:v1234p5678'' FNM_NOFLAGS = 0"
  by (simp add: fnmatch_glob_def)

lemma glob_acpi: "fnmatch_glob ''acpi:PNP0A*'' ''acpi:PNP0A03'' FNM_NOFLAGS = 0"
  by (simp add: fnmatch_glob_def)

text \<open>A blacklist file with the lines \<^verbatim>\<open>deferred foo\<close> and \<^verbatim>\<open>blacklist foo\<close>, in
  this order: the name is in the blacklist with \<^verbatim>\<open>deferred = false\<close>, the first entry
  decides, and with \<^verbatim>\<open>need_deferred = false\<close> the module is loaded.\<close>

theorem blacklisted_after_deferred_counterexample:
  "\<lparr>blacklist_name = ''foo'', blacklist_deferred = False\<rparr> \<in> set
     [\<lparr>blacklist_name = ''foo'', blacklist_deferred = True\<rparr>,
      \<lparr>blacklist_name = ''foo'', blacklist_deferred = False\<rparr>] \<and>
   insmod_calls (snd (load_module_by_device_modalias fnmatch_glob (\<lambda>cs name. 0)
     ''usb:v1234p5678'' False
     \<lparr>modules_aliases_map = [\<lparr>alias_name = Some ''foo'', alias_pattern = Some ''usb:v1234*''\<rparr>],
      modules_blacklist =
        [\<lparr>blacklist_name = ''foo'', blacklist_deferred = True\<rparr>,
         \<lparr>blacklist_name = ''foo'', blacklist_deferred = False\<rparr>],
      deferred_module_loading_list = [], insmod_calls = []\<rparr>)) = [''foo'']"
  by (simp add: load_module_by_device_modalias_def is_module_blacklisted_or_deferred_def glob_usb)

theorem blacklisted_module_never_loaded_witness:
  "find (\<lambda>b. blacklist_name b = ''foo'')
     (modules_blacklist
        \<lparr>modules_aliases_map = [\<lparr>alias_name = Some ''foo'', alias_pattern = Some ''usb:v1234*''\<rparr>],
         modules_blacklist = [\<lparr>blacklist_name = ''foo'', blacklist_deferred = False\<rparr>],
         deferred_module_loading_list = [], insmod_calls = []\<rparr>)
     = Some \<lparr>blacklist_name = ''foo'', blacklist_deferred = False\<rparr> \<and>
   ''foo'' \<notin> set (drop (length (insmod_calls
        \<lparr>modules_aliases_map = [\<lparr>alias_name = Some ''foo'', alias_pattern = Some ''usb:v1234*''\<rparr>],
         modules_blacklist = [\<lparr>blacklist_name = ''foo'', blacklist_deferred = False\<rparr>],
         deferred_module_loading_list = [], insmod_calls = []\<rparr>))
     (insmod_calls (snd (load_module_by_device_modalias fnmatch_glob (\<lambda>cs name. 0)
        ''usb:v1234p5678'' False
        \<lparr>modules_aliases_map = [\<lparr>alias_name = Some ''foo'', alias_pattern = Some ''usb:v1234*''\<rparr>],
         modules_blacklist = [\<lparr>blacklist_name = ''foo'', blacklist_deferred = False\<rparr>],
         deferred_module_loading_list = [], insmod_calls = []\<rparr>))))"
proof -
  let ?st = "\<lparr>modules_aliases_map = [\<lparr>alias_name = Some ''foo'', alias_pattern = Some ''usb:v1234*''\<rparr>],
         modules_blacklist = [\<lparr>blacklist_name = ''foo'', blacklist_deferred = False\<rparr>],
         deferred_module_loading_list = [], insmod_calls = []\<rparr>"
  have f: "find (\<lambda>b. blacklist_name b = ''foo'') (modules_blacklist ?st)
             = Some \<lparr>blacklist_name = ''foo'', blacklist_deferred = False\<rparr>"
    by simp
  have d: "\<not> blacklist_deferred \<lparr>blacklist_name = ''foo'', blacklist_deferred = False\<rparr> \<or> False"
    by simp
  show ?thesis
    by (rule conjI[OF f blacklisted_module_never_loaded[OF f d]])
qed

subsection \<open>The deferred queue\<close>

text \<open>
  C3. The claim: when \<^verbatim>\<open>handle_module_loading\<close> finds the alias table empty and reads
  \<^verbatim>\<open>modules.alias\<close> with success, it reads the blacklist and then drains the deferred
  queue. The source reads both files and leaves the queue as it is: here the queue holds
  \<^verbatim>\<open>acpi:PNP0A03\<close>, the alias file maps \<^verbatim>\<open>acpi:PNP0A*\<close> to \<^verbatim>\<open>pcihost\<close>,
  and the call returns with the entry still queued and nothing loaded.
\<close>

theorem handle_module_loading_keeps_queue:
  "handle_module_loading fnmatch_glob (\<lambda>cs name. 0)
     (Some [T_TEXT ''alias'', T_TEXT ''acpi:PNP0A*'', T_TEXT ''pcihost'', T_NEWLINE])
     (Some []) False None
     \<lparr>modules_aliases_map = [], modules_blacklist = [],
      deferred_module_loading_list = [\<lparr>alias_name = None, alias_pattern = Some ''acpi:PNP0A03''\<rparr>],
      insmod_calls = []\<rparr>
   = \<lparr>modules_aliases_map = [\<lparr>alias_name = Some ''pcihost'', alias_pattern = Some ''acpi:PNP0A*''\<rparr>],
      modules_blacklist = [],
      deferred_module_loading_list = [\<lparr>alias_name = None, alias_pattern = Some ''acpi:PNP0A03''\<rparr>],
      insmod_calls = []\<rparr>"
  by (simp add: handle_module_loading_def read_modules_aliases_def read_modules_blacklist_def
        parse_line_module_alias_def parse_line_module_blacklist_def)

text \<open>\<^verbatim>\<open>handle_deferred_module_loading\<close>, which only \<^verbatim>\<open>device_init\<close> calls, would
  have loaded the module and emptied the queue.\<close>

lemma handle_deferred_module_loading_example:
  "handle_deferred_module_loading fnmatch_glob (\<lambda>cs name. 0)
     \<lparr>modules_aliases_map = [\<lparr>alias_name = Some ''pcihost'', alias_pattern = Some ''acpi:PNP0A*''\<rparr>],
      modules_blacklist = [],
      deferred_module_loading_list = [\<lparr>alias_name = None, alias_pattern = Some ''acpi:PNP0A03''\<rparr>],
      insmod_calls = []\<rparr>
   = \<lparr>modules_aliases_map = [\<lparr>alias_name = Some ''pcihost'', alias_pattern = Some ''acpi:PNP0A*''\<rparr>],
      modules_blacklist = [],
      deferred_module_loading_list = [],
      insmod_calls = [''pcihost'']\<rparr>"
  by (simp add: handle_deferred_module_loading_def load_module_by_device_modalias_def
        is_module_blacklisted_or_deferred_def glob_acpi)

text \<open>Whatever the files and the event, \<^verbatim>\<open>handle_module_loading\<close> only appends to the
  queue.\<close>

lemma read_modules_desc_loop_queue:
  assumes "\<And>args st. deferred_module_loading_list (parse_line args st)
            = deferred_module_loading_list st"
          "\<And>args st. insmod_calls (parse_line args st) = insmod_calls st"
  shows "deferred_module_loading_list (read_modules_desc_loop parse_line n ts args st)
           = deferred_module_loading_list st \<and>
         insmod_calls (read_modules_desc_loop parse_line n ts args st) = insmod_calls st"
proof (induction ts arbitrary: args st)
  case Nil
  then show ?case by (simp add: assms)
next
  case (Cons t ts)
  then show ?case by (cases t) (simp_all add: assms)
qed

lemma read_modules_queue:
  "deferred_module_loading_list (snd (read_modules_aliases file st))
     = deferred_module_loading_list st"
  "deferred_module_loading_list (snd (read_modules_blacklist file st))
     = deferred_module_loading_list st"
  by (simp_all add: read_modules_aliases_def read_modules_blacklist_def
        read_modules_desc_loop_queue parse_line_module_alias_def parse_line_module_blacklist_def
        split: option.split)

lemma load_module_queue:
  "load_module_by_device_modalias fnmatch insmod m b st = (r, st2) \<Longrightarrow>
     deferred_module_loading_list st2 = deferred_module_loading_list st"
  by (auto simp: load_module_by_device_modalias_def split: prod.splits)

lemma handle_module_loading_never_drains:
  "\<exists>new. deferred_module_loading_list
            (handle_module_loading fnmatch insmod alias_file blacklist_file booting m st)
          = deferred_module_loading_list st @ new"
proof -
  define st1 where "st1 =
        (if modules_aliases_map st = []
         then (case read_modules_aliases alias_file st of
                 (r, st') \<Rightarrow> if r = 0 then snd (read_modules_blacklist blacklist_file st') else st')
         else st)"
  have q: "deferred_module_loading_list st1 = deferred_module_loading_list st"
    using read_modules_queue(1)[of alias_file st]
    by (auto simp: st1_def read_modules_queue(2) split: prod.split)
  have "\<exists>new. deferred_module_loading_list
            (case m of
               None \<Rightarrow> st1
             | Some mo \<Rightarrow>
                 (if modules_aliases_map st1 = []
                  then st1\<lparr>deferred_module_loading_list := deferred_module_loading_list st1 @
                         [\<lparr>alias_name = None, alias_pattern = Some mo\<rparr>]\<rparr>
                  else (case load_module_by_device_modalias fnmatch insmod mo booting st1 of
                      (r, st2) \<Rightarrow>
                        if r = 2
                        then st2\<lparr>deferred_module_loading_list :=
                                   deferred_module_loading_list st2 @
                                   [\<lparr>alias_name = None, alias_pattern = Some mo\<rparr>]\<rparr>
                        else st2)))
          = deferred_module_loading_list st1 @ new"
    by (auto split: option.split prod.split dest: load_module_queue)
  then show ?thesis
    unfolding q handle_module_loading_def st1_def[symmetric] Let_def .
qed

subsection \<open>Device names and the length of the node path\<close>

lemma parse_device_name_None:
  "major ue < 0 \<or> minor ue < 0 \<or> 64 < length (devpath_leaf (the (path ue)))
     \<Longrightarrow> parse_device_name ue 64 = None"
  by (auto simp: parse_device_name_def strrchr_def devpath_leaf_def Let_def)

text \<open>
  C10. For every event whose \<^verbatim>\<open>major\<close> or \<^verbatim>\<open>minor\<close> is negative, or whose devpath
  leaf is longer than 64 bytes, \<^verbatim>\<open>parse_device_name\<close> returns NULL, and the block
  handler and the generic handler return at once: they create, remove and relabel no
  device node, and do nothing else either.
\<close>

theorem no_device_name_no_node:
  "major ue < 0 \<or> minor ue < 0 \<or> 64 < length (devpath_leaf (the (path ue))) \<Longrightarrow>
     parse_device_name ue 64 = None \<and>
     handle_block_device_event env rules platform_names ue = [] \<and>
     handle_generic_device_event env rules platform_names ue = []"
  by (simp add: parse_device_name_None handle_block_device_event_def
        handle_generic_device_event_def)

lemma parse_device_name_Some:
  "parse_device_name ue 64 = Some name \<Longrightarrow>
     length name \<le> 64 \<and> 0 \<le> major ue \<and> 0 \<le> minor ue \<and> name = devpath_leaf (the (path ue))"
  by (auto simp: parse_device_name_def strrchr_def devpath_leaf_def Let_def
        split: if_splits option.splits)

lemma print_nat_length: "0 < k \<Longrightarrow> n < 10 ^ k \<Longrightarrow> length (print_nat n) \<le> k"
proof (induction k arbitrary: n)
  case 0
  then show ?case by simp
next
  case (Suc k)
  show ?case
  proof (cases "n < 10")
    case True
    then show ?thesis by (subst print_nat.simps) simp
  next
    case False
    then have k: "0 < k" using Suc.prems by (cases k) auto
    have "n div 10 < 10 ^ k" using Suc.prems by (simp add: less_mult_imp_div_less mult.commute)
    from Suc.IH[OF k this] False show ?thesis by (subst print_nat.simps) simp
  qed
qed

lemma printf_03d_length: "0 \<le> i \<Longrightarrow> i < 10 ^ 8 \<Longrightarrow> length (printf_03d i) \<le> 8"
proof -
  assume a: "0 \<le> i" "i < 10 ^ 8"
  then have "nat i < 10 ^ 8" by (simp add: nat_less_iff)
  from print_nat_length[OF _ this] have "length (print_nat (nat i)) \<le> 8" by simp
  then show ?thesis using a by (simp add: printf_03d_def Let_def)
qed

lemma make_device_node_paths:
  "op \<in> set (make_device env rules d block ma mi links) \<Longrightarrow> node_path op = Some p \<Longrightarrow> p = d"
  by (auto simp: make_device_def Let_def split: prod.splits option.splits if_splits)

lemma handle_device_node_paths:
  "op \<in> set (handle_device env rules act d block ma mi links) \<Longrightarrow> node_path op = Some p \<Longrightarrow> p = d"
  by (auto simp: handle_device_def dest: make_device_node_paths split: if_splits option.splits)

lemma choose_base_length:
  "length name \<le> 64 \<Longrightarrow> choose_base subsys name = (ops, base, name1) \<Longrightarrow>
     length (base @ name1) \<le> 80 \<and> (\<forall>op \<in> set ops. node_path op = None)"
  by (auto simp: choose_base_def split: if_splits)

lemma mkdir_recursive_no_node: "op \<in> set (mkdir_recursive_for_devpath d) \<Longrightarrow> node_path op = None"
  by (simp add: mkdir_recursive_for_devpath_def)

lemma assemble_devpath_eq:
  "assemble_devpath dir devname =
     (if 95 < length (dir @ ''/'' @ printf_s devname) then None
      else Some (dir @ ''/'' @ printf_s devname))"
  by (auto simp: assemble_devpath_def snprintf_def Let_def)

lemma usb_text_length:
  assumes "0 \<le> mi" "mi < 2 ^ 31"
  shows "length (''/dev/bus/usb/'' @ printf_03d (mi div 128 + 1) @ ''/'' @ printf_03d (mi mod 128 + 1))
           \<le> 95"
proof -
  have "mi div 128 + 1 < 10 ^ 8" "0 \<le> mi div 128 + 1" using assms by auto
  then have a: "length (printf_03d (mi div 128 + 1)) \<le> 8" by (simp add: printf_03d_length)
  have "mi mod 128 + 1 < 10 ^ 8" "0 \<le> mi mod 128 + 1" using assms by auto
  then have b: "length (printf_03d (mi mod 128 + 1)) \<le> 8" by (simp add: printf_03d_length)
  show ?thesis using a b by simp
qed

lemma choose_devpath_text:
  assumes "length name \<le> 64" "0 \<le> minor ue" "minor ue < 2 ^ 31"
  shows "case devpath_text env ue name of
           None \<Rightarrow> choose_devpath env ue name = Dropped
         | Some t \<Rightarrow>
             if 95 < length t then choose_devpath env ue name = Dropped
             else (\<exists>ops. (choose_devpath env ue name = Devpath ops t \<or>
                          (\<exists>base name1. choose_devpath env ue name = Base ops base name1 \<and>
                                         snprintf 96 (base @ name1) = t)) \<and>
                         (\<forall>op \<in> set ops. node_path op = None))"
proof (cases "env_subsystem_find_by_name env (the (subsystem ue))")
  case (Some ss)
  then show ?thesis
    by (cases "ss_devname_src ss")
       (simp_all add: devpath_text_def choose_devpath_def assemble_devpath_eq
          mkdir_recursive_no_node printf_s_def)
next
  case None
  note none = this
  show ?thesis
  proof (cases "strncmp_eq (the (subsystem ue)) ''usb'' 3")
    case True
    note usb = this
    show ?thesis
    proof (cases "the (subsystem ue) = ''usb'' \<or> the (subsystem ue) = ''usbmisc''")
      case True
      show ?thesis
      proof (cases "device_name ue")
        case None
        have l: "length (''/dev/bus/usb/'' @ printf_03d (minor ue div 128 + 1) @ ''/'' @
                   printf_03d (minor ue mod 128 + 1)) \<le> 95"
          using usb_text_length[OF assms(2,3)] .
        then have "snprintf 96 (''/dev/bus/usb/'' @ printf_03d (minor ue div 128 + 1) @ ''/'' @
                   printf_03d (minor ue mod 128 + 1)) =
                 ''/dev/bus/usb/'' @ printf_03d (minor ue div 128 + 1) @ ''/'' @
                   printf_03d (minor ue mod 128 + 1)"
          unfolding snprintf_def by (intro take_all) simp
        then show ?thesis using none usb True None l
          by (simp add: devpath_text_def choose_devpath_def Let_def del: append.simps length_append)
      next
        case (Some dn)
        then show ?thesis using none usb True
          by (simp add: devpath_text_def choose_devpath_def assemble_devpath_eq printf_s_def
                mkdir_recursive_no_node)
      qed
    next
      case False
      then show ?thesis using none usb
        by (simp add: devpath_text_def choose_devpath_def)
    qed
  next
    case False
    obtain ops base name1 where cb: "choose_base (the (subsystem ue)) name = (ops, base, name1)"
      by (cases "choose_base (the (subsystem ue)) name") auto
    from choose_base_length[OF assms(1) cb]
    have l: "length (base @ name1) \<le> 80" and n: "\<forall>op \<in> set ops. node_path op = None" by auto
    have "snprintf 96 (base @ name1) = base @ name1"
      unfolding snprintf_def using l by (intro take_all) simp
    then show ?thesis using none False cb l n
      by (simp add: devpath_text_def choose_devpath_def del: length_append)
  qed
qed

text \<open>
  C8. For every generic event that has a device name and whose \<^verbatim>\<open>minor\<close> is an
  \<^verbatim>\<open>int\<close>: if the text chosen for the device node (base directory plus device name)
  is longer than 95 bytes, the handler does nothing, so no node is created, removed or
  relabelled; otherwise every node it creates, relabels, chowns or removes is at that
  text, which is at most 95 bytes long. An event that is ignored for another reason has
  no effect at all.
\<close>

theorem generic_devpath_within_limit:
  assumes "parse_device_name ue 64 = Some name" and "minor ue < 2 ^ 31"
  shows "case devpath_text env ue name of
           None \<Rightarrow> handle_generic_device_event env rules platform_names ue = []
         | Some t \<Rightarrow>
             if 95 < length t
             then handle_generic_device_event env rules platform_names ue = []
             else \<forall>op \<in> set (handle_generic_device_event env rules platform_names ue).
                    \<forall>p. node_path op = Some p \<longrightarrow> p = t \<and> length p \<le> 95"
proof -
  from parse_device_name_Some[OF assms(1)]
  have n: "length name \<le> 64" "0 \<le> minor ue" by auto
  note c = choose_devpath_text[OF n assms(2), of env]
  show ?thesis
  proof (cases "devpath_text env ue name")
    case None
    then show ?thesis using c assms(1) by (simp add: handle_generic_device_event_def)
  next
    case (Some t)
    show ?thesis
    proof (cases "95 < length t")
      case True
      then show ?thesis using c Some assms(1) by (simp add: handle_generic_device_event_def)
    next
      case False
      then obtain ops where ops: "\<forall>op \<in> set ops. node_path op = None"
        and ch: "choose_devpath env ue name = Devpath ops t \<or>
                 (\<exists>base name1. choose_devpath env ue name = Base ops base name1 \<and>
                    snprintf 96 (base @ name1) = t)"
        using c Some by auto
      obtain links made where g: "get_character_device_symlinks platform_names ue = (links, made)"
        by (cases "get_character_device_symlinks platform_names ue") auto
      have "handle_generic_device_event env rules platform_names ue =
              ops @ (if made then [Mkdir ''/dev/usb'' 493] else []) @
              handle_device env rules (the (action ue)) t False (major ue) (minor ue) links"
        using ch assms(1) g by (auto simp: handle_generic_device_event_def)
      moreover have "p = t \<and> length p \<le> 95"
        if "op \<in> set (handle_device env rules (the (action ue)) t False (major ue) (minor ue) links)"
           "node_path op = Some p" for op p
        using handle_device_node_paths[OF that] False by simp
      ultimately show ?thesis using Some False ops
        by (auto split: if_splits)
    qed
  qed
qed

lemma usb_event_name: "parse_device_name usb_event 64 = Some ''2-1''"
  by (simp add: parse_device_name_def usb_event_def uevent_init_def strrchr_def)

theorem no_device_name_no_node_witness:
  "major (usb_event\<lparr>major := - 1\<rparr>) < 0 \<and>
   parse_device_name (usb_event\<lparr>major := - 1\<rparr>) 64 = None \<and>
   handle_block_device_event example_env [] [] (usb_event\<lparr>major := - 1\<rparr>) = [] \<and>
   handle_generic_device_event example_env [] [] (usb_event\<lparr>major := - 1\<rparr>) = []"
proof -
  have h: "major (usb_event\<lparr>major := - 1\<rparr>) < 0" by simp
  then have "major (usb_event\<lparr>major := - 1\<rparr>) < 0 \<or> minor (usb_event\<lparr>major := - 1\<rparr>) < 0 \<or>
     64 < length (devpath_leaf (the (path (usb_event\<lparr>major := - 1\<rparr>))))" by simp
  from no_device_name_no_node[OF this, of example_env "[]" "[]"] h show ?thesis by simp
qed

theorem generic_devpath_within_limit_witness:
  "parse_device_name usb_event 64 = Some ''2-1'' \<and> minor usb_event < 2 ^ 31 \<and>
   devpath_text example_env usb_event ''2-1'' = Some ''/dev/bus/usb/002/005'' \<and>
   list_all (\<lambda>op. case node_path op of None \<Rightarrow> True | Some p \<Rightarrow> p = ''/dev/bus/usb/002/005'')
     (handle_generic_device_event example_env [] [] usb_event) \<and>
   devpath_text
     (example_env\<lparr>env_subsystem_find_by_name := (\<lambda>n. Some \<lparr>ss_name = n,
        ss_dirname = replicate 100 CHR ''d'', ss_devname_src = DEVNAME_UEVENT_DEVPATH\<rparr>)\<rparr>)
     usb_event ''2-1'' = Some (replicate 100 CHR ''d'' @ ''/2-1'') \<and>
   handle_generic_device_event
     (example_env\<lparr>env_subsystem_find_by_name := (\<lambda>n. Some \<lparr>ss_name = n,
        ss_dirname = replicate 100 CHR ''d'', ss_devname_src = DEVNAME_UEVENT_DEVPATH\<rparr>)\<rparr>)
     [] [] usb_event = []"
proof -
  let ?env2 = "example_env\<lparr>env_subsystem_find_by_name := (\<lambda>n. Some \<lparr>ss_name = n,
        ss_dirname = replicate 100 CHR ''d'', ss_devname_src = DEVNAME_UEVENT_DEVPATH\<rparr>)\<rparr>"
  have m: "minor usb_event < 2 ^ 31" by (simp add: usb_event_def)
  have t1: "devpath_text example_env usb_event ''2-1'' = Some ''/dev/bus/usb/002/005''"
    by (simp add: devpath_text_def example_env_def usb_event_def strncmp_eq_def)
  have t2: "devpath_text ?env2 usb_event ''2-1'' = Some (replicate 100 CHR ''d'' @ ''/2-1'')"
    by (simp add: devpath_text_def)
  have a: "list_all (\<lambda>op. case node_path op of None \<Rightarrow> True | Some p \<Rightarrow> p = ''/dev/bus/usb/002/005'')
     (handle_generic_device_event example_env [] [] usb_event)"
    using generic_devpath_within_limit[OF usb_event_name m, of example_env "[]" "[]"]
    by (auto simp: t1 list_all_iff split: option.split)
  have b: "handle_generic_device_event ?env2 [] [] usb_event = []"
    using generic_devpath_within_limit[OF usb_event_name m, of ?env2 "[]" "[]"]
    by (simp add: t2)
  show ?thesis using usb_event_name m t1 t2 a b by blast
qed

subsection \<open>The links of a block device\<close>

lemma find_platform_device_loop_slash:
  "find_platform_device_loop p nodes = Some bus \<Longrightarrow> CHR ''/'' \<in> set p"
proof (induction nodes)
  case Nil
  then show ?case by simp
next
  case (Cons b nodes)
  show ?case
  proof (cases "bus_path_len b < length p \<and> p ! bus_path_len b = CHR ''/''")
    case True
    then show ?thesis using nth_mem by metis
  next
    case False
    then show ?thesis using Cons by (auto split: if_splits)
  qed
qed

lemma find_pci_device_prefix_slash:
  "find_pci_device_prefix p n = Some b \<Longrightarrow> CHR ''/'' \<in> set p"
proof -
  assume "find_pci_device_prefix p n = Some b"
  then have "take 12 p = ''/devices/pci''"
    by (auto simp: find_pci_device_prefix_def strncmp_eq_def split: if_splits)
  then have "hd p = CHR ''/'' \<and> p \<noteq> []" by (cases p) auto
  then show ?thesis by (cases p) auto
qed

lemma block_device_parent_slash:
  "block_device_parent names p = Some td \<Longrightarrow> CHR ''/'' \<in> set p"
  by (auto simp: block_device_parent_def find_platform_device_def
        dest: find_platform_device_loop_slash find_pci_device_prefix_slash
        split: option.splits)

text \<open>What \<^verbatim>\<open>get_block_device_symlinks\<close> computes, for every event: the three links
  in their order, each built on what \<^verbatim>\<open>link_path\<close> holds.\<close>

lemma get_block_device_symlinks_computes:
  "get_block_device_symlinks sanitize platform_names ue =
     (case block_device_parent platform_names (the (path ue)) of
        None \<Rightarrow> None
      | Some (type, device) \<Rightarrow>
          Some ((case partition_name ue of
                   Some pn \<Rightarrow> [block_link_base type device @ ''/by-name/'' @ sanitize pn]
                 | None \<Rightarrow> []) @
                (if 0 \<le> partition_num ue
                 then [block_link_base type device @ ''/by-num/p'' @ printf_d (partition_num ue)]
                 else []) @
                [block_link_base type device @ ''/'' @ devpath_leaf (the (path ue))]))"
proof (cases "block_device_parent platform_names (the (path ue))")
  case None
  then show ?thesis
    by (auto simp: get_block_device_symlinks_def block_device_parent_def split: option.splits)
next
  case (Some td)
  from block_device_parent_slash[OF Some]
  have s: "strrchr (the (path ue)) CHR ''/'' = Some (CHR ''/'' # devpath_leaf (the (path ue)))"
    by (simp add: strrchr_def devpath_leaf_def)
  show ?thesis using Some
    by (auto simp: get_block_device_symlinks_def block_device_parent_def s Let_def snprintf_def
          block_link_base_def split: option.splits)
qed

text \<open>Where \<^verbatim>\<open>/dev/block/<type>/<device>\<close> has at most 255 bytes, \<^verbatim>\<open>link_path\<close>
  holds the whole of it and the links are the ones the specification names.\<close>

lemma block_link_base_whole:
  "length (''/dev/block/'' @ type @ ''/'' @ device) \<le> 255 \<Longrightarrow>
     block_link_base type device = ''/dev/block/'' @ type @ ''/'' @ device"
  unfolding block_link_base_def by (rule take_all) simp

lemma get_block_device_symlinks_fitting:
  assumes "block_device_parent platform_names (the (path ue)) = Some (type, device)"
    and "length (''/dev/block/'' @ type @ ''/'' @ device) \<le> 255"
  shows "get_block_device_symlinks sanitize platform_names ue =
           Some ((case partition_name ue of
                    Some pn \<Rightarrow> [''/dev/block/'' @ type @ ''/'' @ device @ ''/by-name/'' @ sanitize pn]
                  | None \<Rightarrow> []) @
                 (if 0 \<le> partition_num ue
                  then [''/dev/block/'' @ type @ ''/'' @ device @ ''/by-num/p'' @
                        printf_d (partition_num ue)]
                  else []) @
                 [''/dev/block/'' @ type @ ''/'' @ device @ ''/'' @ devpath_leaf (the (path ue))])"
  using assms(1) block_link_base_whole[OF assms(2)]
  by (simp add: get_block_device_symlinks_computes split: option.split)

lemma print_nat_3: "print_nat 3 = ''3''"
  by (subst print_nat.simps) (simp add: digit_char_def)

lemma get_block_device_symlinks_example:
  "get_block_device_symlinks sanitize_spec
     (add_platform_device ''/devices/platform/soc.0'' []) mmc_event =
   Some [''/dev/block/platform/soc.0/by-name/user_data_bad'',
         ''/dev/block/platform/soc.0/by-num/p3'',
         ''/dev/block/platform/soc.0/mmcblk0p3'']"
  by (simp add: get_block_device_symlinks_def add_platform_device_def find_platform_device_def
        strncmp_eq_def mmc_event_def uevent_init_def snprintf_def sanitize_spec_def printf_d_def
        print_nat_3 strrchr_def)

text \<open>
  C5. The claim: for every block event whose devpath has a platform parent or a PCI
  prefix, the links are \<^verbatim>\<open>/dev/block/<type>/<device>/by-name/<sanitized PARTNAME>\<close>
  when PARTNAME is present, \<^verbatim>\<open>/dev/block/<type>/<device>/by-num/p<PARTN>\<close> when PARTN
  is not negative, and always \<^verbatim>\<open>/dev/block/<type>/<device>/<leaf>\<close>, in this order.
  The source formats \<^verbatim>\<open>/dev/block/<type>/<device>\<close> into \<^verbatim>\<open>link_path\<close>, an array
  of 256 bytes, and does not look at what \<^verbatim>\<open>snprintf\<close> returns. Here the platform
  device has a name of 236 bytes: the base has 256 bytes, \<^verbatim>\<open>link_path\<close> keeps 255,
  and the link lacks the last byte of the device name. A second platform device whose
  name differs from the first in that last byte only gets the same link.
\<close>

theorem get_block_device_symlinks_truncated_link:
  "find_platform_device (''/devices/platform/'' @ replicate 236 CHR ''a'' @ ''/block/sda'')
     (add_platform_device (''/devices/platform/'' @ replicate 236 CHR ''a'') []) =
     Some \<lparr>bus_name = replicate 236 CHR ''a'',
           bus_path = ''/devices/platform/'' @ replicate 236 CHR ''a'', bus_path_len = 254\<rparr> \<and>
   get_block_device_symlinks sanitize_spec
     (add_platform_device (''/devices/platform/'' @ replicate 236 CHR ''a'') [])
     (uevent_init\<lparr>action := Some ''add'',
        path := Some (''/devices/platform/'' @ replicate 236 CHR ''a'' @ ''/block/sda''),
        subsystem := Some ''block'', major := 8, minor := 0\<rparr>) =
     Some [''/dev/block/platform/'' @ replicate 235 CHR ''a'' @ ''/sda''] \<and>
   find_platform_device (''/devices/platform/'' @ replicate 235 CHR ''a'' @ ''b/block/sda'')
     (add_platform_device (''/devices/platform/'' @ replicate 235 CHR ''a'' @ ''b'') []) =
     Some \<lparr>bus_name = replicate 235 CHR ''a'' @ ''b'',
           bus_path = ''/devices/platform/'' @ replicate 235 CHR ''a'' @ ''b'',
           bus_path_len = 254\<rparr> \<and>
   get_block_device_symlinks sanitize_spec
     (add_platform_device (''/devices/platform/'' @ replicate 235 CHR ''a'' @ ''b'') [])
     (uevent_init\<lparr>action := Some ''add'',
        path := Some (''/devices/platform/'' @ replicate 235 CHR ''a'' @ ''b/block/sda''),
        subsystem := Some ''block'', major := 8, minor := 16\<rparr>) =
     Some [''/dev/block/platform/'' @ replicate 235 CHR ''a'' @ ''/sda'']"
  by code_simp

subsection \<open>The last write to the loading file\<close>

lemma loading_writes_append: "loading_writes (xs @ ys) = loading_writes xs @ loading_writes ys"
  by (induction xs rule: loading_writes.induct) simp_all

lemma load_firmware_loop_ret:
  "fst (load_firmware_loop wfully len reads k) = (if copy_io_error wfully len reads k then - 1 else 0)"
  by (induction wfully len reads k rule: load_firmware_loop.induct)
     (auto split: read_result.splits prod.splits)

lemma load_firmware_last:
  "fw_fstat f = Some n \<Longrightarrow>
     last_loading_write (snd (load_firmware wfully f)) =
       Some (if copy_io_error wfully n (fw_reads f) 0 then ''-1'' else ''0'') \<and>
     fst (load_firmware wfully f) = (if copy_io_error wfully n (fw_reads f) 0 then - 1 else 0)"
  using load_firmware_loop_ret[of wfully n "fw_reads f" 0]
  by (cases "copy_io_error wfully n (fw_reads f) 0")
     (auto simp: load_firmware_def last_loading_write_def loading_writes_append
        split: prod.splits list.splits)

lemma try_loading_misses:
  assumes "\<forall>j<k. search_firmware_dirs (fwe_open env (i + j)) dirs fw = None \<and> fwe_booting env (i + j)"
  shows "try_loading env dirs fw i (fwe_booting env i) =
           try_loading env dirs fw (i + k) (fwe_booting env (i + k))"
  using assms
proof (induction k arbitrary: i)
  case 0
  then show ?case by simp
next
  case (Suc k)
  have h: "search_firmware_dirs (fwe_open env i) dirs fw = None" "fwe_booting env i"
    using Suc.prems[rule_format, of 0] by simp_all
  have "\<forall>j<k. search_firmware_dirs (fwe_open env (Suc i + j)) dirs fw = None \<and>
               fwe_booting env (Suc i + j)"
    using Suc.prems by (metis Suc_less_eq add_Suc_right add_Suc)
  from Suc.IH[OF this] h show ?case
    by (subst try_loading.simps) simp
qed

text \<open>The paths on which \<^verbatim>\<open>process_firmware_event\<close> returns, with both sysfs files
  opened and after any number of rounds that miss the file while the system is booting.
  The file is found and \<^verbatim>\<open>fstat\<close> gives its size: the last write to \<^verbatim>\<open>loading\<close>
  is \<^verbatim>\<open>0\<close> when no read and no write fails (a short read included) and \<^verbatim>\<open>-1\<close>
  when one does. The file is found and \<^verbatim>\<open>fstat\<close> fails: nothing is written. The
  file is in no directory and the system is not booting: the last write is \<^verbatim>\<open>-1\<close>.\<close>

lemma firmware_loading_paths:
  assumes "fwe_loading_opens env" and "fwe_data_opens env"
    and "\<forall>j<k. search_firmware_dirs (fwe_open env j) dirs (the (firmware ue)) = None \<and>
               fwe_booting env j"
  shows "case search_firmware_dirs (fwe_open env k) dirs (the (firmware ue)) of
           Some f \<Rightarrow>
             (case fw_fstat f of
                Some n \<Rightarrow>
                  \<exists>ws. process_firmware_event env dirs ue = Some ws \<and>
                       last_loading_write ws =
                         Some (if copy_io_error (fwe_write_fully env) n (fw_reads f) 0
                               then ''-1'' else ''0'')
              | None \<Rightarrow> process_firmware_event env dirs ue = Some [])
         | None \<Rightarrow>
             fwe_booting env k \<or>
             (\<exists>ws. process_firmware_event env dirs ue = Some ws \<and>
                   last_loading_write ws = Some ''-1'')"
proof -
  have p: "process_firmware_event env dirs ue =
             try_loading env dirs (the (firmware ue)) k (fwe_booting env k)"
    using assms(1,2) try_loading_misses[of k env 0 dirs "the (firmware ue)"] assms(3)
    by (simp add: process_firmware_event_def)
  show ?thesis
  proof (cases "search_firmware_dirs (fwe_open env k) dirs (the (firmware ue))")
    case None
    then show ?thesis unfolding p
      by (subst try_loading.simps, subst try_loading.simps)
         (simp add: last_loading_write_def)
  next
    case (Some f)
    then have t: "try_loading env dirs (the (firmware ue)) k (fwe_booting env k) =
                    Some (snd (load_firmware (fwe_write_fully env) f))"
      by (subst try_loading.simps) simp
    show ?thesis
    proof (cases "fw_fstat f")
      case None
      then show ?thesis using Some by (simp add: p t load_firmware_def)
    next
      case (Some n)
      with load_firmware_last[OF Some, of "fwe_write_fully env"] \<open>search_firmware_dirs _ _ _ = Some f\<close>
      show ?thesis by (simp add: p t)
    qed
  qed
qed

lemma firmware_loading_paths_example:
  "fwe_loading_opens fw_env_retry \<and> fwe_data_opens fw_env_retry \<and>
   search_firmware_dirs (fwe_open fw_env_retry 0) firmware_dirs_arm ''foo.bin'' = None \<and>
   fwe_booting fw_env_retry 0 \<and>
   search_firmware_dirs (fwe_open fw_env_retry 1) firmware_dirs_arm ''foo.bin'' =
     Some \<lparr>fw_fstat = Some 5, fw_reads = [ReadBytes ''hello'']\<rparr> \<and>
   map_option last_loading_write (process_firmware_event fw_env_retry firmware_dirs_arm fw_event)
     = Some (Some ''0'') \<and>
   search_firmware_dirs (fwe_open fw_env_absent 0) firmware_dirs_arm ''foo.bin'' = None \<and>
   map_option last_loading_write (process_firmware_event fw_env_absent firmware_dirs_arm fw_event)
     = Some (Some ''-1'')"
proof -
  have f: "the (firmware fw_event) = ''foo.bin''" by (simp add: fw_event_def)
  have o: "fwe_loading_opens fw_env_retry" "fwe_data_opens fw_env_retry"
          "fwe_loading_opens fw_env_absent" "fwe_data_opens fw_env_absent"
    by (simp_all add: fw_env_retry_def fw_env_absent_def)
  have s0: "search_firmware_dirs (fwe_open fw_env_retry 0) firmware_dirs_arm ''foo.bin'' = None"
    and b0: "fwe_booting fw_env_retry 0"
    and s1: "search_firmware_dirs (fwe_open fw_env_retry 1) firmware_dirs_arm ''foo.bin'' =
               Some \<lparr>fw_fstat = Some 5, fw_reads = [ReadBytes ''hello'']\<rparr>"
    and a0: "search_firmware_dirs (fwe_open fw_env_absent 0) firmware_dirs_arm ''foo.bin'' = None"
    and nb: "\<not> fwe_booting fw_env_absent 0"
    and wf: "fwe_write_fully fw_env_retry = (\<lambda>k buf. True)"
    by (simp_all add: fw_env_retry_def fw_env_absent_def firmware_dirs_arm_def)
  have m1: "\<forall>j<1. search_firmware_dirs (fwe_open fw_env_retry j) firmware_dirs_arm
                    (the (firmware fw_event)) = None \<and> fwe_booting fw_env_retry j"
    using s0 b0 by (simp add: f)
  have m0: "\<forall>j<0. search_firmware_dirs (fwe_open fw_env_absent j) firmware_dirs_arm
                    (the (firmware fw_event)) = None \<and> fwe_booting fw_env_absent j"
    by simp
  have r1: "map_option last_loading_write
              (process_firmware_event fw_env_retry firmware_dirs_arm fw_event) = Some (Some ''0'')"
    using firmware_loading_paths[OF o(1,2) m1] s1 by (auto simp: f wf)
  have r2: "map_option last_loading_write
              (process_firmware_event fw_env_absent firmware_dirs_arm fw_event) = Some (Some ''-1'')"
    using firmware_loading_paths[OF o(3,4) m0] nb by (auto simp: f a0)
  show ?thesis using o s0 b0 s1 a0 r1 r2 by blast
qed

lemma load_firmware_short_read:
  "load_firmware (\<lambda>k buf. True) \<lparr>fw_fstat = Some 4096, fw_reads = [ReadBytes ''hello'']\<rparr> =
     (0, [WriteLoading ''1'', WriteData ''hello'', WriteLoading ''0''])"
  by (simp add: load_firmware_def)

lemma load_firmware_read_error:
  "load_firmware (\<lambda>k buf. True) \<lparr>fw_fstat = Some 4096, fw_reads = [ReadBytes ''hello'', ReadError]\<rparr> =
     (- 1, [WriteLoading ''1'', WriteData ''hello'', WriteLoading ''-1''])"
  by (simp add: load_firmware_def)

lemma load_firmware_fstat_fails:
  "load_firmware write_fully \<lparr>fw_fstat = None, fw_reads = reads\<rparr> = (- 1, [])"
  by (simp add: load_firmware_def)

text \<open>
  C6. The claim: after a firmware transfer the last write to the \<^verbatim>\<open>loading\<close> file is
  \<^verbatim>\<open>0\<close> when the copy succeeds and \<^verbatim>\<open>-1\<close> when the copy fails with an I/O error
  or the file is found nowhere while the system is not booting. The source writes
  \<^verbatim>\<open>-1\<close> after a failed read, after a failed write and for a file that is not found,
  but returns from \<^verbatim>\<open>load_firmware\<close> at once when \<^verbatim>\<open>fstat\<close> fails: here the file
  is opened in the first directory, \<^verbatim>\<open>fstat\<close> fails, \<^verbatim>\<open>load_firmware\<close> returns
  -1, which the caller reports as a copy failure, and nothing at all is written to
  \<^verbatim>\<open>loading\<close>.
\<close>

theorem load_firmware_fstat_failure_writes_nothing:
  "search_firmware_dirs (fwe_open fw_env_fstat_fails 0) firmware_dirs_arm ''foo.bin'' =
     Some \<lparr>fw_fstat = None, fw_reads = [ReadBytes ''hello'']\<rparr> \<and>
   load_firmware (fwe_write_fully fw_env_fstat_fails)
     \<lparr>fw_fstat = None, fw_reads = [ReadBytes ''hello'']\<rparr> = (- 1, []) \<and>
   process_firmware_event fw_env_fstat_fails firmware_dirs_arm fw_event = Some [] \<and>
   last_loading_write [] = None"
proof -
  have s: "search_firmware_dirs (fwe_open fw_env_fstat_fails 0) firmware_dirs_arm ''foo.bin'' =
             Some \<lparr>fw_fstat = None, fw_reads = [ReadBytes ''hello'']\<rparr>"
    by (simp add: fw_env_fstat_fails_def firmware_dirs_arm_def)
  have l: "load_firmware (fwe_write_fully fw_env_fstat_fails)
             \<lparr>fw_fstat = None, fw_reads = [ReadBytes ''hello'']\<rparr> = (- 1, [])"
    by (simp add: load_firmware_def)
  have f: "the (firmware fw_event) = ''foo.bin''" by (simp add: fw_event_def)
  have o: "fwe_loading_opens fw_env_fstat_fails" "fwe_data_opens fw_env_fstat_fails"
    by (simp_all add: fw_env_fstat_fails_def)
  have p: "process_firmware_event fw_env_fstat_fails firmware_dirs_arm fw_event = Some []"
    using o by (subst process_firmware_event_def, subst try_loading.simps) (simp add: f s l)
  show ?thesis using s l p by (simp add: last_loading_write_def)
qed

end
